theory Spec2Isabelle
  imports Complex_Main "HOL-Library.Char_ord" "HOL-Library.List_Lexorder" "HOL-Library.Sublist"
begin

section \<open>MyRouge155: configuration synthesis for ROUGE 1.5.5\<close>

text \<open>
  A shallow embedding of \<^verbatim>\<open>src/MyRouge155.py\<close> (Python 2). Strings are
  \<^typ>\<open>string\<close>; Python's \<^verbatim>\<open>sorted\<close> on filenames is \<^const>\<open>sort\<close> under the
  lexicographic order on character codes. Every \<^verbatim>\<open>raise\<close> of the source, and every
  exception a builtin raises on the paths modelled, is a value of \<open>error\<close>; a function
  that can raise returns \<open>error + 'a\<close> with \<open>Inl\<close> the exception.
\<close>

subsection \<open>Exceptions\<close>

datatype error =
    Exception string    \<comment> \<open>\<^verbatim>\<open>raise Exception(msg)\<close> of the source, with its message\<close>
  | OSError             \<comment> \<open>\<^verbatim>\<open>os.listdir\<close> on a path that cannot be listed\<close>
  | IOError             \<comment> \<open>\<^verbatim>\<open>codecs.open\<close> on a path that cannot be opened for writing\<close>
  | ReError             \<comment> \<open>\<^verbatim>\<open>re.compile\<close> on a malformed pattern\<close>
  | IndexError
  | TypeError
  | KeyError
  | AttributeError
  | ValueError
  | UnicodeDecodeError

definition ebind :: "error + 'a \<Rightarrow> ('a \<Rightarrow> error + 'b) \<Rightarrow> error + 'b" where
  "ebind x f = (case x of Inl e \<Rightarrow> Inl e | Inr v \<Rightarrow> f v)"

text \<open>A list comprehension or loop whose body can raise: the first exception ends it.\<close>

fun emap :: "('a \<Rightarrow> error + 'b) \<Rightarrow> 'a list \<Rightarrow> error + 'b list" where
  "emap f [] = Inr []"
| "emap f (x # xs) = ebind (f x) (\<lambda>y. ebind (emap f xs) (\<lambda>ys. Inr (y # ys)))"

subsection \<open>Builtins\<close>

definition is_space :: "char \<Rightarrow> bool" where
  "is_space c \<longleftrightarrow> c \<in> set [CHR '' '', CHR 0x09, CHR 0x0A, CHR 0x0B, CHR 0x0C, CHR 0x0D]"

text \<open>\<^verbatim>\<open>s.split()\<close>: the maximal runs of non-whitespace characters, in order.\<close>

fun split_ws_aux :: "string \<Rightarrow> string \<Rightarrow> string list" where
  "split_ws_aux w [] = (if w = [] then [] else [rev w])"
| "split_ws_aux w (c # cs) =
     (if is_space c then (if w = [] then split_ws_aux [] cs else rev w # split_ws_aux [] cs)
      else split_ws_aux (c # w) cs)"

definition split_ws :: "string \<Rightarrow> string list" where
  "split_ws s = split_ws_aux [] s"


text \<open>
  \<^verbatim>\<open>s.replace(old, new)\<close>: every non-overlapping occurrence of \<open>old\<close>, leftmost
  first; with an empty \<open>old\<close>, \<open>new\<close> goes before every character and at the end.
\<close>

fun replace_from :: "string \<Rightarrow> string \<Rightarrow> nat \<Rightarrow> string \<Rightarrow> string" where
  "replace_from old new k [] = []"
| "replace_from old new (Suc k) (c # cs) = replace_from old new k cs"
| "replace_from old new 0 (c # cs) =
     (if prefix old (c # cs) then new @ replace_from old new (length old - 1) cs
      else c # replace_from old new 0 cs)"

definition str_replace :: "string \<Rightarrow> string \<Rightarrow> string \<Rightarrow> string" where
  "str_replace old new s =
     (if old = [] then new @ concat (map (\<lambda>c. c # new) s) else replace_from old new 0 s)"

text \<open>\<^verbatim>\<open>str(n)\<close> for a non-negative integer.\<close>

definition digit_char :: "nat \<Rightarrow> char" where
  "digit_char d = char_of (48 + d)"

function str_nat :: "nat \<Rightarrow> string" where
  "str_nat n = (if n < 10 then [digit_char n] else str_nat (n div 10) @ [digit_char (n mod 10)])"
  by pat_completeness auto
termination
  by (relation "measure id") auto

declare str_nat.simps [simp del]



subsection \<open>The regular-expression library and the operating system\<close>

text \<open>
  Python's \<^verbatim>\<open>re\<close> module is a parameter of the model. An \<open>engine\<close> is
  \<^verbatim>\<open>re.compile\<close>: \<open>None\<close> when the pattern is rejected (\<^verbatim>\<open>re.error\<close>), else the
  compiled pattern's \<^verbatim>\<open>match\<close> method, which gives \<open>None\<close> for no match and else the
  groups 1, 2, ... of the match, each \<open>None\<close> when it took no part in it.
  \<open>py_re\<close> below is a concrete engine for a fragment of the pattern syntax.

  The operating system is \<^verbatim>\<open>os.listdir\<close> (\<open>None\<close> when it raises; the listing is in
  arbitrary order) and whether a path can be opened for writing.
\<close>

type_synonym groups = "string option list"
type_synonym matcher = "string \<Rightarrow> groups option"
type_synonym engine = "string \<Rightarrow> matcher option"

record os =
  listdir :: "string \<Rightarrow> string list option"
  writable :: "string \<Rightarrow> bool"

text \<open>
  The identifier \<^verbatim>\<open>match.groups(0)[0]\<close>: the first group's text, the default \<open>0\<close>
  when that group took no part in the match, \<^verbatim>\<open>IndexError\<close> when the pattern has no
  group.
\<close>

datatype ident = IdStr string | IdInt int

definition first_group :: "groups \<Rightarrow> error + ident" where
  "first_group g =
     (case g of [] \<Rightarrow> Inl IndexError | None # _ \<Rightarrow> Inr (IdInt 0) | Some s # _ \<Rightarrow> Inr (IdStr s))"

subsection \<open>\<^verbatim>\<open>__get_model_filenames_for_id\<close>\<close>

definition missing_references_msg :: "string \<Rightarrow> string \<Rightarrow> string" where
  "missing_references_msg doc_id model_filenames_pattern =
     ''Could not find any model summaries for the system summary with ID '' @ doc_id @
     ''. Specified model filename pattern was: '' @ model_filenames_pattern"

text \<open>
  \<^verbatim>\<open>str.replace\<close> raises \<^verbatim>\<open>TypeError\<close> on the integer identifier. The result is in
  the order of the directory listing.
\<close>

definition get_model_filenames_for_id ::
  "engine \<Rightarrow> os \<Rightarrow> ident \<Rightarrow> string \<Rightarrow> string \<Rightarrow> error + string list" where
  "get_model_filenames_for_id E sys doc_id model_dir model_filenames_pattern =
     (case doc_id of
        IdInt _ \<Rightarrow> Inl TypeError
      | IdStr s \<Rightarrow>
          (case E (str_replace ''#ID#'' s model_filenames_pattern) of
             None \<Rightarrow> Inl ReError
           | Some pattern \<Rightarrow>
               (case listdir sys model_dir of
                  None \<Rightarrow> Inl OSError
                | Some fs \<Rightarrow>
                    (let model_filenames = filter (\<lambda>f. pattern f \<noteq> None) fs
                     in if model_filenames = []
                        then Inl (Exception (missing_references_msg s model_filenames_pattern))
                        else Inr model_filenames))))"

subsection \<open>\<^verbatim>\<open>ProduceSysModPair\<close>\<close>

type_synonym peer = "ident \<times> string \<times> string"   \<comment> \<open>\<^verbatim>\<open>[id, system_id, system_filename]\<close>\<close>
type_synonym task = "peer list \<times> string list"       \<comment> \<open>\<^verbatim>\<open>[system_id_set, model_file_set]\<close>\<close>

text \<open>The inner loop over the sorted listing, for one compiled pattern and label.\<close>

fun id_file_loop :: "matcher \<Rightarrow> string \<Rightarrow> string list \<Rightarrow> error + peer list" where
  "id_file_loop system_re eachdir [] = Inr []"
| "id_file_loop system_re eachdir (system_filename # rest) =
     (case system_re system_filename of
        None \<Rightarrow> id_file_loop system_re eachdir rest
      | Some g \<Rightarrow>
          ebind (first_group g) (\<lambda>doc_id.
          ebind (id_file_loop system_re eachdir rest) (\<lambda>r.
          Inr ((doc_id, eachdir, system_filename) # r))))"

definition id_file_set :: "engine \<Rightarrow> string \<Rightarrow> string list \<Rightarrow> string \<Rightarrow> error + peer list" where
  "id_file_set E system_filename_pattern system_filenames eachdir =
     (case E (system_filename_pattern @ ''.'' @ eachdir @ ''$'') of
        None \<Rightarrow> Inl ReError
      | Some system_re \<Rightarrow> id_file_loop system_re eachdir (sort system_filenames))"

text \<open>\<^verbatim>\<open>eachsystemset[i]\<close> for every variant; \<^verbatim>\<open>IndexError\<close> on a list that is too short.\<close>

definition index_all :: "peer list list \<Rightarrow> nat \<Rightarrow> error + peer list" where
  "index_all all_id_system_file i =
     emap (\<lambda>eachsystemset. if i < length eachsystemset then Inr (eachsystemset ! i)
                            else Inl IndexError) all_id_system_file"

text \<open>The second loop, over the first variant's list, with its counter \<open>i\<close>.\<close>

fun pair_loop ::
  "engine \<Rightarrow> os \<Rightarrow> string \<Rightarrow> string \<Rightarrow> peer list list \<Rightarrow> nat \<Rightarrow> peer list \<Rightarrow> error + task list" where
  "pair_loop E sys model_dir mpat all_id_system_file i [] = Inr []"
| "pair_loop E sys model_dir mpat all_id_system_file i (eachsystem # rest) =
     ebind (get_model_filenames_for_id E sys (fst eachsystem) model_dir mpat) (\<lambda>model_file_set.
     ebind (index_all all_id_system_file i) (\<lambda>system_id_set.
     ebind (pair_loop E sys model_dir mpat all_id_system_file (Suc i) rest) (\<lambda>r.
     Inr ((system_id_set, model_file_set) # r))))"

definition ProduceSysModPair ::
  "engine \<Rightarrow> os \<Rightarrow> string \<Rightarrow> string \<Rightarrow> string list \<Rightarrow> string \<Rightarrow> string \<Rightarrow> error + task list" where
  "ProduceSysModPair E sys system_dir model_dir system_idset model_filenames_pattern
       system_filename_pattern =
     (case listdir sys system_dir of
        None \<Rightarrow> Inl OSError
      | Some system_filenames \<Rightarrow>
          ebind (emap (id_file_set E system_filename_pattern system_filenames) system_idset)
            (\<lambda>all_id_system_file.
               (case all_id_system_file of
                  [] \<Rightarrow> Inl IndexError
                | first # _ \<Rightarrow>
                    pair_loop E sys model_dir model_filenames_pattern all_id_system_file 0 first)))"

subsection \<open>\<^verbatim>\<open>__get_eval_stringA\<close> and \<^verbatim>\<open>__get_eval_string\<close>\<close>

definition nl :: char where "nl = CHR 0x0A"
definition tab :: char where "tab = CHR 0x09"

text \<open>
  \<^verbatim>\<open>chr(65 + i)\<close> is a byte string and the format string is a unicode literal (the
  module imports \<^verbatim>\<open>unicode_literals\<close>), so Python 2 decodes the byte as ASCII when it
  formats it: from \<open>i = 63\<close> on that raises \<^verbatim>\<open>UnicodeDecodeError\<close>.
\<close>

definition model_elem :: "nat \<Rightarrow> string \<Rightarrow> error + string" where
  \<open>model_elem i name =
     (if 65 + i < 128 then Inr (''<M ID="'' @ [char_of (65 + i)] @ ''">'' @ name @ ''</M>'')
      else Inl UnicodeDecodeError)\<close>

text \<open>The list comprehension over \<^verbatim>\<open>enumerate(model_filenames)\<close>, from index \<open>i\<close> on.\<close>

fun model_elems_from :: "nat \<Rightarrow> string list \<Rightarrow> error + string list" where
  "model_elems_from i [] = Inr []"
| "model_elems_from i (name # names) =
     ebind (model_elem i name) (\<lambda>e.
     ebind (model_elems_from (Suc i) names) (\<lambda>es. Inr (e # es)))"

text \<open>\<^verbatim>\<open>sep.join(xs)\<close>.\<close>

fun join :: "string \<Rightarrow> string list \<Rightarrow> string" where
  "join sep [] = []"
| "join sep [x] = x"
| "join sep (x # y # ys) = x @ sep @ join sep (y # ys)"

definition eval_template :: "string \<Rightarrow> string \<Rightarrow> string \<Rightarrow> string \<Rightarrow> string \<Rightarrow> string" where
  \<open>eval_template task_id model_root peer_root peer_elems model_elems =
     [nl] @ ''    <EVAL ID="'' @ task_id @ ''">'' @ [nl] @
     ''        <MODEL-ROOT>'' @ model_root @ ''</MODEL-ROOT>'' @ [nl] @
     ''        <PEER-ROOT>'' @ peer_root @ ''</PEER-ROOT>'' @ [nl] @
     ''        <INPUT-FORMAT TYPE="SEE">'' @ [nl] @
     ''        </INPUT-FORMAT>'' @ [nl] @
     ''        <PEERS>'' @ [nl] @
     ''            '' @ peer_elems @ [nl] @
     ''        </PEERS>'' @ [nl] @
     ''        <MODELS>'' @ [nl] @
     ''            '' @ model_elems @ [nl] @
     ''        </MODELS>'' @ [nl] @
     ''    </EVAL>'' @ [nl]\<close>

definition peer_elem :: "peer \<Rightarrow> string" where
  \<open>peer_elem eachpeer =
     ''<P ID="'' @ fst (snd eachpeer) @ ''">'' @ snd (snd eachpeer) @ ''</P>'' @ [nl, tab, tab, tab]\<close>

definition get_eval_stringA ::
  "nat \<Rightarrow> string \<Rightarrow> peer list \<Rightarrow> string \<Rightarrow> string list \<Rightarrow> error + string" where
  "get_eval_stringA task_id system_dir system_filenames model_dir model_filenames =
     (let peer_elems_set = foldl (\<lambda>s eachpeer. s @ peer_elem eachpeer) [] system_filenames
      in ebind (model_elems_from 0 model_filenames) (\<lambda>model_elems.
         Inr (eval_template (str_nat task_id) model_dir system_dir peer_elems_set
                (join [nl, tab, tab, tab] model_elems))))"

text \<open>
  The single-system generator; \<open>system_id\<close> is the text \<^verbatim>\<open>format\<close> gives for the
  caller's \<^verbatim>\<open>system_id\<close>.
\<close>

definition get_eval_string ::
  "nat \<Rightarrow> string \<Rightarrow> string \<Rightarrow> string \<Rightarrow> string \<Rightarrow> string list \<Rightarrow> error + string" where
  \<open>get_eval_string task_id system_id system_dir system_filename model_dir model_filenames =
     (let peer_elems = ''<P ID="'' @ system_id @ ''">'' @ system_filename @ ''</P>''
      in ebind (model_elems_from 0 model_filenames) (\<lambda>model_elems.
         Inr (eval_template (str_nat task_id) model_dir system_dir peer_elems
                (join [nl, tab, tab, tab] model_elems))))\<close>

subsection \<open>\<^verbatim>\<open>write_config_staticA\<close> and \<^verbatim>\<open>write_config_static\<close>\<close>

text \<open>
  The files are a map from path to content. \<^verbatim>\<open>codecs.open(path, 'w')\<close> truncates the
  file; each \<^verbatim>\<open>f.write\<close> appends; an exception inside the \<^verbatim>\<open>with\<close> block leaves
  what was written so far. The loops below carry the content written so far and the
  counter of \<^verbatim>\<open>enumerate(..., start=1)\<close>.
\<close>

type_synonym files = "string \<rightharpoonup> string"

definition doc_open :: string where \<open>doc_open = ''<ROUGE-EVAL version="1.55">''\<close>
definition doc_close :: string where \<open>doc_close = ''</ROUGE-EVAL>''\<close>

fun write_tasksA ::
  "string \<Rightarrow> string \<Rightarrow> nat \<Rightarrow> task list \<Rightarrow> string \<Rightarrow> (error + unit) \<times> string" where
  "write_tasksA system_dir model_dir task_id [] written = (Inr (), written)"
| "write_tasksA system_dir model_dir task_id ((system_filenames, model_filenames) # rest) written =
     (case get_eval_stringA task_id system_dir system_filenames model_dir model_filenames of
        Inl e \<Rightarrow> (Inl e, written)
      | Inr eval_string \<Rightarrow>
          write_tasksA system_dir model_dir (Suc task_id) rest (written @ eval_string))"

definition write_config_staticA ::
  "engine \<Rightarrow> os \<Rightarrow> string \<Rightarrow> string \<Rightarrow> string \<Rightarrow> string \<Rightarrow> string \<Rightarrow> string list \<Rightarrow> files
     \<Rightarrow> (error + unit) \<times> files" where
  "write_config_staticA E sys system_dir system_filename_pattern model_dir model_filename_pattern
       config_file_path system_id fs =
     (case listdir sys system_dir of
        None \<Rightarrow> (Inl OSError, fs)
      | Some system_filenames \<Rightarrow>
          (case ProduceSysModPair E sys system_dir model_dir system_id model_filename_pattern
                  system_filename_pattern of
             Inl e \<Rightarrow> (Inl e, fs)
           | Inr sys_mod \<Rightarrow>
               if \<not> writable sys config_file_path then (Inl IOError, fs)
               else
                 (case write_tasksA system_dir model_dir 1 sys_mod doc_open of
                    (Inl e, written) \<Rightarrow> (Inl e, fs(config_file_path \<mapsto> written))
                  | (Inr _, written) \<Rightarrow> (Inr (), fs(config_file_path \<mapsto> written @ doc_close)))))"

text \<open>The first loop of \<^verbatim>\<open>write_config_static\<close>, over the sorted listing.\<close>

fun system_models_loop ::
  "engine \<Rightarrow> os \<Rightarrow> matcher \<Rightarrow> string \<Rightarrow> string \<Rightarrow> string list \<Rightarrow> error + (string \<times> string list) list"
  where
  "system_models_loop E sys system_re model_dir mpat [] = Inr []"
| "system_models_loop E sys system_re model_dir mpat (system_filename # rest) =
     (case system_re system_filename of
        None \<Rightarrow> system_models_loop E sys system_re model_dir mpat rest
      | Some g \<Rightarrow>
          ebind (first_group g) (\<lambda>doc_id.
          ebind (get_model_filenames_for_id E sys doc_id model_dir mpat) (\<lambda>model_filenames.
          ebind (system_models_loop E sys system_re model_dir mpat rest) (\<lambda>r.
          Inr ((system_filename, sort model_filenames) # r)))))"

definition no_candidates_msg :: "string \<Rightarrow> string \<Rightarrow> string" where
  "no_candidates_msg pattern system_dir =
     ''Did not find any files matching the pattern '' @ pattern @
     '' in the system summaries directory '' @ system_dir @ ''.''"

fun write_tasks ::
  "string \<Rightarrow> string \<Rightarrow> string \<Rightarrow> nat \<Rightarrow> (string \<times> string list) list \<Rightarrow> string
     \<Rightarrow> (error + unit) \<times> string" where
  "write_tasks system_id system_dir model_dir task_id [] written = (Inr (), written)"
| "write_tasks system_id system_dir model_dir task_id ((system_filename, model_filenames) # rest)
       written =
     (case get_eval_string task_id system_id system_dir system_filename model_dir model_filenames of
        Inl e \<Rightarrow> (Inl e, written)
      | Inr eval_string \<Rightarrow>
          write_tasks system_id system_dir model_dir (Suc task_id) rest (written @ eval_string))"

definition write_config_static ::
  "engine \<Rightarrow> os \<Rightarrow> string \<Rightarrow> string \<Rightarrow> string \<Rightarrow> string \<Rightarrow> string \<Rightarrow> string \<Rightarrow> files
     \<Rightarrow> (error + unit) \<times> files" where
  "write_config_static E sys system_dir system_filename_pattern model_dir model_filename_pattern
       config_file_path system_id fs =
     (case listdir sys system_dir of
        None \<Rightarrow> (Inl OSError, fs)
      | Some system_filenames \<Rightarrow>
          (case E system_filename_pattern of
             None \<Rightarrow> (Inl ReError, fs)
           | Some system_re \<Rightarrow>
               (case system_models_loop E sys system_re model_dir model_filename_pattern
                       (sort system_filenames) of
                  Inl e \<Rightarrow> (Inl e, fs)
                | Inr system_models_tuples \<Rightarrow>
                    if system_models_tuples = []
                    then (Inl (Exception (no_candidates_msg system_filename_pattern system_dir)), fs)
                    else if \<not> writable sys config_file_path then (Inl IOError, fs)
                    else
                      (case write_tasks system_id system_dir model_dir 1 system_models_tuples
                              doc_open of
                         (Inl e, written) \<Rightarrow> (Inl e, fs(config_file_path \<mapsto> written))
                       | (Inr _, written) \<Rightarrow>
                           (Inr (), fs(config_file_path \<mapsto> written @ doc_close))))))"

subsection \<open>\<^verbatim>\<open>output_to_dict\<close>\<close>








subsection \<open>\<^verbatim>\<open>__clean_rouge_args\<close>\<close>

definition quot_mark_pattern :: string where
  \<open>quot_mark_pattern = ''"(.+)"''\<close>

text \<open>
  The value stored in \<^verbatim>\<open>self.args\<close> by \<^verbatim>\<open>__init__\<close>. \<^verbatim>\<open>match.group(1)\<close>
  raises \<^verbatim>\<open>IndexError\<close> when the pattern has no group and is \<^verbatim>\<open>None\<close> when the
  group took no part in the match.
\<close>

definition clean_rouge_args :: "engine \<Rightarrow> string option \<Rightarrow> error + string option" where
  "clean_rouge_args E rouge_args =
     (case rouge_args of
        None \<Rightarrow> Inr None
      | Some a \<Rightarrow>
          if a = [] then Inr None
          else
            (case E quot_mark_pattern of
               None \<Rightarrow> Inl ReError
             | Some quot_mark_re \<Rightarrow>
                 (case quot_mark_re a of
                    Some g \<Rightarrow> (case g of [] \<Rightarrow> Inl IndexError | cleaned_args # _ \<Rightarrow> Inr cleaned_args)
                  | None \<Rightarrow> Inr rouge_args)))"

subsection \<open>The option list handed to ROUGE\<close>

text \<open>
  The fields of a \<^verbatim>\<open>MyRouge155\<close> object that \<^verbatim>\<open>evaluate\<close> reads after
  \<^verbatim>\<open>write_config\<close> has run: \<^verbatim>\<open>self.args\<close> (\<open>None\<close> is Python's \<^verbatim>\<open>None\<close>),
  \<^verbatim>\<open>self._data_dir\<close>, \<^verbatim>\<open>self._bin_path\<close> and \<^verbatim>\<open>self._config_file\<close>.
\<close>

record rouge =
  args :: "string option"
  data_dir :: string
  bin_path :: string
  config_file :: string

text \<open>Truthiness of an optional string: \<^verbatim>\<open>None\<close> and \<^verbatim>\<open>''\<close> are false.\<close>

definition truthy :: "string option \<Rightarrow> bool" where
  "truthy a = (case a of None \<Rightarrow> False | Some s \<Rightarrow> s \<noteq> [])"

definition default_options :: "rouge \<Rightarrow> string list" where
  "default_options self =
     [''-e'', data_dir self, ''-c'', ''95'', ''-U'', ''-r'', ''1000'', ''-n'', ''4'', ''-a'']"

definition add_config_option :: "rouge \<Rightarrow> string list \<Rightarrow> string list" where
  "add_config_option self options = options @ [''-m''] @ [config_file self]"

definition get_options :: "rouge \<Rightarrow> string option \<Rightarrow> string list" where
  "get_options self rouge_args =
     add_config_option self
       (case (if truthy (args self) then args self else None) of
          Some a \<Rightarrow> split_ws a
        | None \<Rightarrow>
            (case (if truthy rouge_args then rouge_args else None) of
               Some a \<Rightarrow> split_ws a
             | None \<Rightarrow> default_options self))"

text \<open>The command of \<^verbatim>\<open>evaluate\<close>: \<^verbatim>\<open>[PerlPath] + [self._bin_path] + options\<close>.\<close>

definition command :: "rouge \<Rightarrow> string \<Rightarrow> string option \<Rightarrow> string list" where
  "command self PerlPath rouge_args = [PerlPath] @ [bin_path self] @ get_options self rouge_args"

subsection \<open>A concrete engine: a fragment of Python 2's \<^verbatim>\<open>re\<close>\<close>

text \<open>
  The fragment: literal characters, \<^verbatim>\<open>.\<close> (any character but newline), \<^verbatim>\<open>^\<close>,
  \<^verbatim>\<open>$\<close> (at the end, or before a newline that ends the string), character classes
  with ranges and negation, \<^verbatim>\<open>\d \D \w \W \s \S\<close> (ASCII, as without the
  \<^verbatim>\<open>UNICODE\<close> flag), a backslash before a character that is not alphanumeric,
  capturing groups, alternation, and the greedy \<^verbatim>\<open>* + ?\<close>.

  \<open>mt r st\<close> lists, in the order a backtracking matcher tries them, the states in which
  \<open>r\<close> can stop when started in \<open>st\<close>; a state is the position, the input still to
  read and the groups. \<^verbatim>\<open>match\<close> takes the first.
\<close>

type_synonym mstate = "nat \<times> string \<times> groups"

datatype rx =
    Eps
  | Lit char
  | Dot
  | Cls bool "(char \<times> char) list"
  | Bol
  | Eol
  | Seq rx rx
  | Alt rx rx
  | Star rx
  | Grp nat rx


definition in_class :: "bool \<Rightarrow> (char \<times> char) list \<Rightarrow> char \<Rightarrow> bool" where
  "in_class neg rs c \<longleftrightarrow> (list_ex (\<lambda>(lo, hi). lo \<le> c \<and> c \<le> hi) rs) \<noteq> neg"

definition step_char :: "(char \<Rightarrow> bool) \<Rightarrow> mstate \<Rightarrow> mstate list" where
  "step_char P st =
     (case st of (p, s, g) \<Rightarrow>
        (case s of [] \<Rightarrow> [] | c # cs \<Rightarrow> if P c then [(Suc p, cs, g)] else []))"

function mt :: "rx \<Rightarrow> mstate \<Rightarrow> mstate list" where
  "mt Eps st = [st]"
| "mt (Lit c) st = step_char (\<lambda>d. d = c) st"
| "mt Dot st = step_char (\<lambda>d. d \<noteq> CHR 0x0A) st"
| "mt (Cls neg rs) st = step_char (in_class neg rs) st"
| "mt Bol st = (if fst st = 0 then [st] else [])"
| "mt Eol st = (if fst (snd st) = [] \<or> fst (snd st) = [CHR 0x0A] then [st] else [])"
| "mt (Seq a b) st = concat (map (mt b) (mt a st))"
| "mt (Alt a b) st = mt a st @ mt b st"
| "mt (Star a) st =
     concat (map (\<lambda>st'. if length (fst (snd st')) < length (fst (snd st)) then mt (Star a) st' else [])
               (mt a st)) @ [st]"
| "mt (Grp k a) st =
     map (\<lambda>st'. (fst st', fst (snd st'),
                 (snd (snd st'))[k := Some (take (fst st' - fst st) (fst (snd st)))]))
         (mt a st)"
  by pat_completeness auto
termination
  by (relation "inv_image (less_than <*lex*> less_than) (\<lambda>(r, st). (size r, length (fst (snd st))))")
     auto

definition py_match :: "rx \<Rightarrow> nat \<Rightarrow> string \<Rightarrow> groups option" where
  "py_match r n s = (case mt r (0, s, replicate n None) of [] \<Rightarrow> None | st # _ \<Rightarrow> Some (snd (snd st)))"


text \<open>
  The parser reads the pattern left to right with a stack of open groups. A frame holds
  the group's index, its finished alternatives (latest first) and the atoms of the
  alternative being read (latest first, each with a flag: already quantified). A
  construct outside the fragment gives \<open>PUnsupp\<close>, a pattern Python rejects gives
  \<open>PErr\<close>. Outside the fragment are: \<^verbatim>\<open>{\<close>, groups opening with \<^verbatim>\<open>(?\<close>,
  non-greedy quantifiers, a quantifier on something that can match the empty string, a
  backslash before a letter or digit other than \<^verbatim>\<open>dDwWsS\<close>, a backslash inside a
  character class, and a 100th group.
\<close>

datatype 'a pres = POk 'a | PErr | PUnsupp

datatype pmode =
    Normal
  | Esc
  | Opened
  | ClsStart
  | ClsBody bool "(char \<times> char) list" bool
  | ClsItem bool "(char \<times> char) list" char
  | ClsDash bool "(char \<times> char) list" char

type_synonym frame = "nat \<times> rx list \<times> (rx \<times> bool) list"

record pstate =
  stack :: "frame list"
  ngroups :: nat
  mode :: pmode

fun nullable :: "rx \<Rightarrow> bool" where
  "nullable Eps = True"
| "nullable (Lit c) = False"
| "nullable Dot = False"
| "nullable (Cls neg rs) = False"
| "nullable Bol = True"
| "nullable Eol = True"
| "nullable (Seq a b) = (nullable a \<and> nullable b)"
| "nullable (Alt a b) = (nullable a \<or> nullable b)"
| "nullable (Star a) = True"
| "nullable (Grp k a) = nullable a"

definition mk_seq :: "(rx \<times> bool) list \<Rightarrow> rx" where
  "mk_seq cur = foldr Seq (rev (map fst cur)) Eps"

definition mk_frame :: "rx list \<Rightarrow> (rx \<times> bool) list \<Rightarrow> rx" where
  "mk_frame alts cur = foldr Alt (rev alts) (mk_seq cur)"

definition add_atom :: "rx \<Rightarrow> bool \<Rightarrow> pstate \<Rightarrow> pstate pres" where
  "add_atom r q st =
     (case stack st of
        [] \<Rightarrow> PErr
      | (k, alts, cur) # fs \<Rightarrow> POk (st\<lparr>stack := (k, alts, (r, q) # cur) # fs, mode := Normal\<rparr>))"

definition is_alnum :: "char \<Rightarrow> bool" where
  "is_alnum c \<longleftrightarrow> (CHR ''a'' \<le> c \<and> c \<le> CHR ''z'') \<or> (CHR ''A'' \<le> c \<and> c \<le> CHR ''Z'')
     \<or> (CHR ''0'' \<le> c \<and> c \<le> CHR ''9'')"

definition digit_class :: "(char \<times> char) list" where
  "digit_class = [(CHR ''0'', CHR ''9'')]"
definition word_class :: "(char \<times> char) list" where
  "word_class = [(CHR ''a'', CHR ''z''), (CHR ''A'', CHR ''Z''), (CHR ''0'', CHR ''9''), (CHR ''_'', CHR ''_'')]"
definition space_class :: "(char \<times> char) list" where
  "space_class = [(CHR '' '', CHR '' ''), (CHR 0x09, CHR 0x0D)]"

definition quantify :: "char \<Rightarrow> pstate \<Rightarrow> pstate pres" where
  "quantify c st =
     (case stack st of
        [] \<Rightarrow> PErr
      | (k, alts, cur) # fs \<Rightarrow>
          (case cur of
             [] \<Rightarrow> PErr
           | (r, q) # cur' \<Rightarrow>
               if q then (if c = CHR ''?'' then PUnsupp else PErr)
               else if r = Bol \<or> r = Eol then PErr
               else if nullable r then PUnsupp
               else POk (st\<lparr>stack :=
                          (k, alts,
                           ((if c = CHR ''*'' then Star r
                             else if c = CHR ''+'' then Seq r (Star r)
                             else Alt r Eps), True) # cur') # fs,
                        mode := Normal\<rparr>)))"

definition step_normal :: "char \<Rightarrow> pstate \<Rightarrow> pstate pres" where
  "step_normal c st =
     (if c = CHR 0x5C then POk (st\<lparr>mode := Esc\<rparr>)
      else if c = CHR ''['' then POk (st\<lparr>mode := ClsStart\<rparr>)
      else if c = CHR ''('' then
        (if ngroups st \<ge> 99 then PUnsupp
         else POk (st\<lparr>stack := (ngroups st, [], []) # stack st, ngroups := Suc (ngroups st),
                       mode := Opened\<rparr>))
      else if c = CHR '')'' then
        (case stack st of
           (k, alts, cur) # (k', alts', cur') # fs \<Rightarrow>
             POk (st\<lparr>stack := (k', alts', (Grp k (mk_frame alts cur), False) # cur') # fs,
                     mode := Normal\<rparr>)
         | _ \<Rightarrow> PErr)
      else if c = CHR ''|'' then
        (case stack st of
           [] \<Rightarrow> PErr
         | (k, alts, cur) # fs \<Rightarrow> POk (st\<lparr>stack := (k, mk_seq cur # alts, []) # fs, mode := Normal\<rparr>))
      else if c = CHR ''*'' \<or> c = CHR ''+'' \<or> c = CHR ''?'' then quantify c st
      else if c = CHR ''.'' then add_atom Dot False st
      else if c = CHR ''^'' then add_atom Bol False st
      else if c = CHR ''$'' then add_atom Eol False st
      else if c = CHR ''{'' then PUnsupp
      else add_atom (Lit c) False st)"

definition step_esc :: "char \<Rightarrow> pstate \<Rightarrow> pstate pres" where
  "step_esc c st =
     (if c = CHR ''d'' then add_atom (Cls False digit_class) False st
      else if c = CHR ''D'' then add_atom (Cls True digit_class) False st
      else if c = CHR ''w'' then add_atom (Cls False word_class) False st
      else if c = CHR ''W'' then add_atom (Cls True word_class) False st
      else if c = CHR ''s'' then add_atom (Cls False space_class) False st
      else if c = CHR ''S'' then add_atom (Cls True space_class) False st
      else if is_alnum c then PUnsupp
      else add_atom (Lit c) False st)"

definition step_cls_body :: "bool \<Rightarrow> (char \<times> char) list \<Rightarrow> bool \<Rightarrow> char \<Rightarrow> pstate \<Rightarrow> pstate pres" where
  "step_cls_body neg rs first c st =
     (if c = CHR '']'' \<and> \<not> first then add_atom (Cls neg rs) False st
      else if c = CHR 0x5C then PUnsupp
      else POk (st\<lparr>mode := ClsItem neg rs c\<rparr>))"

definition step :: "char \<Rightarrow> pstate \<Rightarrow> pstate pres" where
  "step c st =
     (case mode st of
        Normal \<Rightarrow> step_normal c st
      | Opened \<Rightarrow> if c = CHR ''?'' then PUnsupp else step_normal c st
      | Esc \<Rightarrow> step_esc c st
      | ClsStart \<Rightarrow>
          if c = CHR ''^'' then POk (st\<lparr>mode := ClsBody True [] True\<rparr>)
          else step_cls_body False [] True c st
      | ClsBody neg rs first \<Rightarrow> step_cls_body neg rs first c st
      | ClsItem neg rs lo \<Rightarrow>
          if c = CHR ''-'' then POk (st\<lparr>mode := ClsDash neg rs lo\<rparr>)
          else step_cls_body neg (rs @ [(lo, lo)]) False c st
      | ClsDash neg rs lo \<Rightarrow>
          if c = CHR '']'' then add_atom (Cls neg (rs @ [(lo, lo), (CHR ''-'', CHR ''-'')])) False st
          else if c = CHR 0x5C then PUnsupp
          else if c < lo then PErr
          else POk (st\<lparr>mode := ClsBody neg (rs @ [(lo, c)]) False\<rparr>))"

fun run :: "pstate \<Rightarrow> string \<Rightarrow> pstate pres" where
  "run st [] = POk st"
| "run st (c # cs) = (case step c st of POk st' \<Rightarrow> run st' cs | PErr \<Rightarrow> PErr | PUnsupp \<Rightarrow> PUnsupp)"

definition finish :: "pstate \<Rightarrow> (rx \<times> nat) pres" where
  "finish st =
     (case stack st of
        [(k, alts, cur)] \<Rightarrow>
          (if mode st = Normal then POk (mk_frame alts cur, ngroups st) else PErr)
      | _ \<Rightarrow> PErr)"

definition init_pstate :: pstate where
  "init_pstate = \<lparr>stack = [(0, [], [])], ngroups = 0, mode = Normal\<rparr>"

definition parse :: "string \<Rightarrow> (rx \<times> nat) pres" where
  "parse p = (case run init_pstate p of POk st \<Rightarrow> finish st | PErr \<Rightarrow> PErr | PUnsupp \<Rightarrow> PUnsupp)"

text \<open>
  As an engine, \<open>py_re\<close> has \<open>None\<close> for a pattern Python rejects and also for a
  pattern outside the fragment, which Python may accept: what is proved of \<open>py_re\<close>
  below is proved of patterns that parse, and the theorems that hold of every engine \<open>E\<close>
  do not depend on it.
\<close>

definition py_re :: engine where
  "py_re p = (case parse p of POk (r, n) \<Rightarrow> Some (py_match r n) | PErr \<Rightarrow> None | PUnsupp \<Rightarrow> None)"

text \<open>
  A pattern of the fragment with no \<^verbatim>\<open>$\<close> outside a character class, and a matcher
  state with more input after it: for the statement that such a pattern accepts a
  filename whatever follows the part it matched.
\<close>

fun eol_free :: "rx \<Rightarrow> bool" where
  "eol_free Eol = False"
| "eol_free (Seq a b) = (eol_free a \<and> eol_free b)"
| "eol_free (Alt a b) = (eol_free a \<and> eol_free b)"
| "eol_free (Star a) = eol_free a"
| "eol_free (Grp k a) = eol_free a"
| "eol_free r = True"

definition eol_free_pattern :: "string \<Rightarrow> bool" where
  "eol_free_pattern p = (case parse p of POk (r, n) \<Rightarrow> eol_free r | PErr \<Rightarrow> False | PUnsupp \<Rightarrow> False)"

definition more_input :: "string \<Rightarrow> mstate \<Rightarrow> mstate" where
  "more_input t st = (fst st, fst (snd st) @ t, snd (snd st))"

text \<open>The pattern of \<^verbatim>\<open>__clean_rouge_args\<close>, parsed.\<close>

definition quot_rx :: rx where
  "quot_rx = Seq (Lit CHR 0x22) (Seq (Grp 0 (Seq (Seq Dot (Star Dot)) Eps)) (Seq (Lit CHR 0x22) Eps))"





subsection \<open>Reading the generated document\<close>



subsection \<open>Reading the parsed report\<close>


definition matched_groups :: "matcher \<Rightarrow> string list \<Rightarrow> groups list" where
  "matched_groups pattern lines = concat (map (\<lambda>line. case pattern line of None \<Rightarrow> [] | Some g \<Rightarrow> [g]) lines)"



subsection \<open>Example directories\<close>

text \<open>
  Two variants \<^verbatim>\<open>01\<close> and \<^verbatim>\<open>02\<close> of two documents. \<^verbatim>\<open>os.listdir\<close> gives a
  listing in arbitrary order; the listing of \<^verbatim>\<open>models\<close> is in the order a
  case-insensitive file system keeps, which is not the order of the character codes.
  Then a directory with a candidate that has no reference, and one with no candidate.
\<close>

definition ex_os :: os where
  "ex_os = \<lparr>listdir = (\<lambda>d. if d = ''systems'' then Some [''doc2.02'', ''doc1.01'', ''xdoc3.01'', ''doc1.02'', ''doc2.01'', ''notes.txt'']
             else if d = ''models'' then Some [''ref-doc1-a'', ''ref-doc1-B'', ''ref-doc2-A''] else None),
            writable = (\<lambda>p. True)\<rparr>"

definition ex_all :: "peer list list" where
  "ex_all = [[(IdStr ''doc1'', ''01'', ''doc1.01''), (IdStr ''doc2'', ''01'', ''doc2.01'')],
             [(IdStr ''doc1'', ''02'', ''doc1.02''), (IdStr ''doc2'', ''02'', ''doc2.02'')]]"

definition ex_tasks :: "task list" where
  "ex_tasks = [([(IdStr ''doc1'', ''01'', ''doc1.01''), (IdStr ''doc1'', ''02'', ''doc1.02'')],
    [''ref-doc1-a'', ''ref-doc1-B'']),
   ([(IdStr ''doc2'', ''01'', ''doc2.01''), (IdStr ''doc2'', ''02'', ''doc2.02'')],
    [''ref-doc2-A''])]"



definition ex_os3 :: os where
  "ex_os3 = \<lparr>listdir = (\<lambda>d. if d = ''systems'' then Some [''readme.txt'']
               else if d = ''models'' then Some [''ref-doc1-A''] else None),
             writable = (\<lambda>p. True)\<rparr>"

definition ex_tuples :: "(string \<times> string list) list" where
  "ex_tuples = [(''doc1.01'', [''ref-doc1-B'', ''ref-doc1-a'']),
                (''doc1.02'', [''ref-doc1-B'', ''ref-doc1-a'']),
                (''doc2.01'', [''ref-doc2-A'']),
                (''doc2.02'', [''ref-doc2-A''])]"


text \<open>The document \<^verbatim>\<open>write_config_static\<close> writes for the first example.\<close>

definition ex_static_document :: string where
  \<open>ex_static_document =
     ''<ROUGE-EVAL version="1.55">'' @ [nl] @
     ''    <EVAL ID="1">'' @ [nl] @
     ''        <MODEL-ROOT>models</MODEL-ROOT>'' @ [nl] @
     ''        <PEER-ROOT>systems</PEER-ROOT>'' @ [nl] @
     ''        <INPUT-FORMAT TYPE="SEE">'' @ [nl] @
     ''        </INPUT-FORMAT>'' @ [nl] @
     ''        <PEERS>'' @ [nl] @
     ''            <P ID="None">doc1.01</P>'' @ [nl] @
     ''        </PEERS>'' @ [nl] @
     ''        <MODELS>'' @ [nl] @
     ''            <M ID="A">ref-doc1-B</M>'' @ [nl] @
     [tab, tab, tab] @ ''<M ID="B">ref-doc1-a</M>'' @ [nl] @
     ''        </MODELS>'' @ [nl] @
     ''    </EVAL>'' @ [nl] @
     [nl] @
     ''    <EVAL ID="2">'' @ [nl] @
     ''        <MODEL-ROOT>models</MODEL-ROOT>'' @ [nl] @
     ''        <PEER-ROOT>systems</PEER-ROOT>'' @ [nl] @
     ''        <INPUT-FORMAT TYPE="SEE">'' @ [nl] @
     ''        </INPUT-FORMAT>'' @ [nl] @
     ''        <PEERS>'' @ [nl] @
     ''            <P ID="None">doc1.02</P>'' @ [nl] @
     ''        </PEERS>'' @ [nl] @
     ''        <MODELS>'' @ [nl] @
     ''            <M ID="A">ref-doc1-B</M>'' @ [nl] @
     [tab, tab, tab] @ ''<M ID="B">ref-doc1-a</M>'' @ [nl] @
     ''        </MODELS>'' @ [nl] @
     ''    </EVAL>'' @ [nl] @
     [nl] @
     ''    <EVAL ID="3">'' @ [nl] @
     ''        <MODEL-ROOT>models</MODEL-ROOT>'' @ [nl] @
     ''        <PEER-ROOT>systems</PEER-ROOT>'' @ [nl] @
     ''        <INPUT-FORMAT TYPE="SEE">'' @ [nl] @
     ''        </INPUT-FORMAT>'' @ [nl] @
     ''        <PEERS>'' @ [nl] @
     ''            <P ID="None">doc2.01</P>'' @ [nl] @
     ''        </PEERS>'' @ [nl] @
     ''        <MODELS>'' @ [nl] @
     ''            <M ID="A">ref-doc2-A</M>'' @ [nl] @
     ''        </MODELS>'' @ [nl] @
     ''    </EVAL>'' @ [nl] @
     [nl] @
     ''    <EVAL ID="4">'' @ [nl] @
     ''        <MODEL-ROOT>models</MODEL-ROOT>'' @ [nl] @
     ''        <PEER-ROOT>systems</PEER-ROOT>'' @ [nl] @
     ''        <INPUT-FORMAT TYPE="SEE">'' @ [nl] @
     ''        </INPUT-FORMAT>'' @ [nl] @
     ''        <PEERS>'' @ [nl] @
     ''            <P ID="None">doc2.02</P>'' @ [nl] @
     ''        </PEERS>'' @ [nl] @
     ''        <MODELS>'' @ [nl] @
     ''            <M ID="A">ref-doc2-A</M>'' @ [nl] @
     ''        </MODELS>'' @ [nl] @
     ''    </EVAL>'' @ [nl] @
     ''</ROUGE-EVAL>''\<close>




text \<open>An object constructed with \<^verbatim>\<open>rouge_args\<close> in double quotes.\<close>

definition ex_rouge :: rouge where
  "ex_rouge = \<lparr>args = Some ''-n 2 -a'', data_dir = ''data'', bin_path = ''ROUGE-1.5.5.pl'',
               config_file = ''rouge_conf.xml''\<rparr>"

section \<open>Theorems\<close>

subsection \<open>Sequencing of exceptions\<close>

lemma ebind_Inl [simp]: "ebind (Inl e) f = Inl e"
  by (simp add: ebind_def)

lemma ebind_Inr [simp]: "ebind (Inr v) f = f v"
  by (simp add: ebind_def)

lemma ebind_eq_Inr: "ebind x f = Inr y \<longleftrightarrow> (\<exists>v. x = Inr v \<and> f v = Inr y)"
  by (cases x) simp_all

lemma emap_eq_Inr: "emap f xs = Inr ys \<longleftrightarrow> list_all2 (\<lambda>x y. f x = Inr y) xs ys"
proof (induction xs arbitrary: ys)
  case Nil
  then show ?case by auto
next
  case (Cons x xs)
  show ?case
    by (cases ys) (auto simp: ebind_eq_Inr Cons.IH)
qed

subsection \<open>The loops of \<^verbatim>\<open>ProduceSysModPair\<close> and \<^verbatim>\<open>write_config_static\<close>\<close>

lemma index_all_eq_Inr:
  "index_all all i = Inr ps \<longleftrightarrow> (\<forall>l\<in>set all. i < length l) \<and> ps = map (\<lambda>l. l ! i) all"
proof -
  have "list_all2 (\<lambda>l y. (if i < length l then Inr (l ! i) else Inl IndexError) = Inr y) all ps
        \<longleftrightarrow> (\<forall>l\<in>set all. i < length l) \<and> ps = map (\<lambda>l. l ! i) all"
  proof (induction all arbitrary: ps)
    case Nil
    then show ?case by auto
  next
    case (Cons l ls)
    show ?case
      by (cases ps) (auto simp: Cons.IH split: if_splits)
  qed
  then show ?thesis
    by (simp add: index_all_def emap_eq_Inr)
qed

lemma pair_loop_eq_Inr:
  "pair_loop E sys model_dir mpat all i cs = Inr tasks \<longleftrightarrow>
     length tasks = length cs \<and>
     (\<forall>j<length cs.
        (\<forall>l\<in>set all. i + j < length l) \<and>
        fst (tasks ! j) = map (\<lambda>l. l ! (i + j)) all \<and>
        get_model_filenames_for_id E sys (fst (cs ! j)) model_dir mpat = Inr (snd (tasks ! j)))"
proof (induction cs arbitrary: i tasks)
  case Nil
  then show ?case by auto
next
  case (Cons c cs)
  note IH = Cons.IH
  show ?case
  proof (cases tasks)
    case Nil
    then show ?thesis by (auto simp: ebind_eq_Inr)
  next
    case (Cons t ts)
    show ?thesis
      unfolding Cons
      by (auto simp: ebind_eq_Inr index_all_eq_Inr IH All_less_Suc2 prod_eq_iff)
  qed
qed

lemma id_file_loop_eq_Inr:
  "id_file_loop m lab fs = Inr ps \<longleftrightarrow>
     list_all2 (\<lambda>f p. \<exists>g. m f = Some g \<and> first_group g = Inr (fst p) \<and> snd p = (lab, f))
       (filter (\<lambda>f. m f \<noteq> None) fs) ps"
proof (induction fs arbitrary: ps)
  case Nil
  then show ?case by auto
next
  case (Cons f fs)
  note IH = Cons.IH
  show ?case
  proof (cases "m f")
    case None
    then show ?thesis by (simp add: IH)
  next
    case (Some g)
    then show ?thesis
      by (cases ps) (auto simp: ebind_eq_Inr IH prod_eq_iff)
  qed
qed


lemma id_file_set_eq_Inr:
  "id_file_set E spat files lab = Inr cands \<longleftrightarrow>
     (\<exists>system_re. E (spat @ ''.'' @ lab @ ''$'') = Some system_re \<and>
        id_file_loop system_re lab (sort files) = Inr cands)"
  by (simp add: id_file_set_def split: option.splits)

lemma id_file_loop_entries:
  assumes "id_file_loop m lab fs = Inr cands"
  shows "map snd cands = map (\<lambda>f. (lab, f)) (filter (\<lambda>f. m f \<noteq> None) fs)"
proof -
  from assms have "list_all2 (\<lambda>f p. snd p = (lab, f)) (filter (\<lambda>f. m f \<noteq> None) fs) cands"
    unfolding id_file_loop_eq_Inr by (rule list_all2_mono) auto
  then show ?thesis
    by (induction rule: list_all2_induct) auto
qed






lemma system_models_loop_eq_Inr:
  "system_models_loop E sys m model_dir mpat fs = Inr tuples \<longleftrightarrow>
     list_all2 (\<lambda>f t. \<exists>g doc_id refs. m f = Some g \<and> first_group g = Inr doc_id \<and>
                  get_model_filenames_for_id E sys doc_id model_dir mpat = Inr refs \<and>
                  t = (f, sort refs))
       (filter (\<lambda>f. m f \<noteq> None) fs) tuples"
proof (induction fs arbitrary: tuples)
  case Nil
  then show ?case by auto
next
  case (Cons f fs)
  note IH = Cons.IH
  show ?case
  proof (cases "m f")
    case None
    then show ?thesis by (simp add: IH)
  next
    case (Some g)
    then show ?thesis
      by (cases tuples) (auto simp: ebind_eq_Inr IH)
  qed
qed



lemma get_model_filenames_eq_Inr:
  "get_model_filenames_for_id E sys doc_id model_dir mpat = Inr refs \<longleftrightarrow>
     (\<exists>s pattern fs. doc_id = IdStr s \<and> E (str_replace ''#ID#'' s mpat) = Some pattern \<and>
        listdir sys model_dir = Some fs \<and> refs = filter (\<lambda>f. pattern f \<noteq> None) fs \<and> refs \<noteq> [])"
  by (auto simp: get_model_filenames_for_id_def Let_def split: ident.splits option.splits)

lemma staticA_no_candidates:
  assumes "listdir sys system_dir = Some system_filenames"
    and "emap (id_file_set E spat system_filenames) system_idset = Inr ([] # others)"
    and "writable sys config"
  shows "write_config_staticA E sys system_dir spat model_dir mpat config system_idset fs
           = (Inr (), fs(config \<mapsto> doc_open @ doc_close))"
  using assms by (simp add: write_config_staticA_def ProduceSysModPair_def)

lemma static_no_candidates:
  assumes "listdir sys system_dir = Some system_filenames"
    and "E spat = Some system_re"
    and "filter (\<lambda>f. system_re f \<noteq> None) system_filenames = []"
  shows "write_config_static E sys system_dir spat model_dir mpat config system_id fs
           = (Inl (Exception (no_candidates_msg spat system_dir)), fs)"
proof -
  from assms(3) have "filter (\<lambda>f. system_re f \<noteq> None) (sort system_filenames) = []"
    by (simp add: filter_empty_conv)
  then have "system_models_loop E sys system_re model_dir mpat (sort system_filenames) = Inr []"
    by (simp add: system_models_loop_eq_Inr)
  with assms(1,2) show ?thesis
    by (simp add: write_config_static_def)
qed

lemma sorted_filter_sort: "sorted (filter P (sort (xs :: string list)))"
  by (simp add: sorted_filter [where f = "\<lambda>x. x", simplified])

subsection \<open>The example directories, evaluated\<close>

lemma py_re_the:
  "(case parse p of POk x \<Rightarrow> True | PErr \<Rightarrow> False | PUnsupp \<Rightarrow> False) \<Longrightarrow> py_re p = Some (the (py_re p))"
  by (auto simp: py_re_def split: pres.splits)

lemma ex_listdir_systems:
  "listdir ex_os ''systems'' = Some [''doc2.02'', ''doc1.01'', ''xdoc3.01'', ''doc1.02'', ''doc2.01'', ''notes.txt'']"
  by (simp add: ex_os_def)

lemma ex_candidates:
  "list_all2 (\<lambda>eachdir cands. id_file_set py_re ''(doc[0-9]+)''
       [''doc2.02'', ''doc1.01'', ''xdoc3.01'', ''doc1.02'', ''doc2.01'', ''notes.txt''] eachdir = Inr cands)
     [''01'', ''02''] ex_all"
  unfolding ex_all_def list_all2_Cons list.rel_inject(1)
  by (intro conjI TrueI; code_simp)

lemma ex_ProduceSysModPair:
  "ProduceSysModPair py_re ex_os ''systems'' ''models'' [''01'', ''02''] ''ref-#ID#-[A-Za-z]''
     ''(doc[0-9]+)'' = Inr ex_tasks"
  by code_simp

subsection \<open>\<^verbatim>\<open>write_config_static\<close>\<close>

lemma list_all2_fst_conv:
  "list_all2 (\<lambda>x t. fst t = x \<and> Q t) xs ts \<longleftrightarrow> map fst ts = xs \<and> (\<forall>t\<in>set ts. Q t)"
proof (induction ts arbitrary: xs)
  case Nil
  then show ?case by auto
next
  case (Cons t ts)
  then show ?case by (cases xs) auto
qed

lemma candidate_step_conv:
  "(\<exists>g doc_id refs. m f = Some g \<and> first_group g = Inr doc_id \<and>
        get_model_filenames_for_id E sys doc_id model_dir mpat = Inr refs \<and> t = (f, sort refs))
   \<longleftrightarrow> (fst t = f \<and> (\<exists>s rest refs. m (fst t) = Some (Some s # rest) \<and>
        get_model_filenames_for_id E sys (IdStr s) model_dir mpat = Inr refs \<and> snd t = sort refs))"
  (is "?L \<longleftrightarrow> ?R")
proof
  assume ?L
  then obtain g doc_id refs where g: "m f = Some g" "first_group g = Inr doc_id"
    "get_model_filenames_for_id E sys doc_id model_dir mpat = Inr refs" "t = (f, sort refs)"
    by blast
  from g(3) obtain s where s: "doc_id = IdStr s"
    by (auto simp: get_model_filenames_eq_Inr)
  with g(2) obtain rest where "g = Some s # rest"
    by (auto simp: first_group_def split: list.splits option.splits)
  with g s show ?R by auto
next
  assume ?R
  then obtain s rest refs where r: "fst t = f" "m f = Some (Some s # rest)"
    "get_model_filenames_for_id E sys (IdStr s) model_dir mpat = Inr refs" "snd t = sort refs"
    by auto
  have "first_group (Some s # rest) = Inr (IdStr s)"
    by (simp add: first_group_def)
  moreover from r(1,4) have "t = (f, sort refs)"
    by (cases t) simp
  ultimately show ?L using r(2,3) by blast
qed

lemma system_models_loop_tuples:
  "system_models_loop E sys m model_dir mpat fs = Inr tuples \<longleftrightarrow>
     map fst tuples = filter (\<lambda>f. m f \<noteq> None) fs \<and>
     (\<forall>t\<in>set tuples. \<exists>s rest refs. m (fst t) = Some (Some s # rest) \<and>
        get_model_filenames_for_id E sys (IdStr s) model_dir mpat = Inr refs \<and> snd t = sort refs)"
  unfolding system_models_loop_eq_Inr candidate_step_conv
  by (rule list_all2_fst_conv)

lemma write_tasks_eq_Inr:
  "write_tasks system_id system_dir model_dir k tuples written = (Inr (), out) \<longleftrightarrow>
     (\<exists>evals. length evals = length tuples \<and>
        (\<forall>j<length tuples. get_eval_string (k + j) system_id system_dir (fst (tuples ! j))
                               model_dir (snd (tuples ! j)) = Inr (evals ! j)) \<and>
        out = written @ concat evals)"
proof (induction tuples arbitrary: k written)
  case Nil
  then show ?case by auto
next
  case (Cons t tuples)
  obtain f refs where t: "t = (f, refs)" by (cases t)
  show ?case
  proof (cases "get_eval_string k system_id system_dir f model_dir refs")
    case (Inl e)
    then show ?thesis
      unfolding t by (auto 0 3)
  next
    case (Inr ev)
    have "write_tasks system_id system_dir model_dir k (t # tuples) written = (Inr (), out)
          \<longleftrightarrow> (\<exists>evals. length evals = length tuples \<and>
                 (\<forall>j<length tuples. get_eval_string (Suc k + j) system_id system_dir
                     (fst (tuples ! j)) model_dir (snd (tuples ! j)) = Inr (evals ! j)) \<and>
                 out = (written @ ev) @ concat evals)"
      unfolding t using Inr by (simp add: Cons.IH)
    also have "\<dots> \<longleftrightarrow> (\<exists>evals. length evals = length (t # tuples) \<and>
        (\<forall>j<length (t # tuples). get_eval_string (k + j) system_id system_dir
             (fst ((t # tuples) ! j)) model_dir (snd ((t # tuples) ! j)) = Inr (evals ! j)) \<and>
        out = written @ concat evals)" (is "?A \<longleftrightarrow> ?B")
    proof
      assume ?A
      then obtain evals where e: "length evals = length tuples"
        "\<forall>j<length tuples. get_eval_string (Suc k + j) system_id system_dir
                     (fst (tuples ! j)) model_dir (snd (tuples ! j)) = Inr (evals ! j)"
        "out = (written @ ev) @ concat evals"
        by blast
      have "\<forall>j<length (t # tuples). get_eval_string (k + j) system_id system_dir
             (fst ((t # tuples) ! j)) model_dir (snd ((t # tuples) ! j)) = Inr ((ev # evals) ! j)"
      proof (intro allI impI)
        fix j assume "j < length (t # tuples)"
        then show "get_eval_string (k + j) system_id system_dir
             (fst ((t # tuples) ! j)) model_dir (snd ((t # tuples) ! j)) = Inr ((ev # evals) ! j)"
          using e(2) Inr t by (cases j) auto
      qed
      with e(1,3) show ?B
        by (intro exI [of _ "ev # evals"]) simp
    next
      assume ?B
      then obtain evals where e: "length evals = length (t # tuples)"
        "\<forall>j<length (t # tuples). get_eval_string (k + j) system_id system_dir
             (fst ((t # tuples) ! j)) model_dir (snd ((t # tuples) ! j)) = Inr (evals ! j)"
        "out = written @ concat evals"
        by blast
      from e(1) obtain e0 es where es: "evals = e0 # es" by (cases evals) auto
      from e(2) [rule_format, of 0] Inr t es have e0: "e0 = ev" by simp
      have "\<forall>j<length tuples. get_eval_string (Suc k + j) system_id system_dir
                     (fst (tuples ! j)) model_dir (snd (tuples ! j)) = Inr (es ! j)"
      proof (intro allI impI)
        fix j assume "j < length tuples"
        with e(2) [rule_format, of "Suc j"] es
        show "get_eval_string (Suc k + j) system_id system_dir
                     (fst (tuples ! j)) model_dir (snd (tuples ! j)) = Inr (es ! j)"
          by simp
      qed
      with e(1,3) es e0 show ?A
        by (intro exI [of _ es]) simp
    qed
    finally show ?thesis .
  qed
qed

lemma write_config_static_eq_Inr:
  assumes "listdir sys system_dir = Some system_filenames" and "E spat = Some system_re"
  shows "write_config_static E sys system_dir spat model_dir mpat config system_id fs = (Inr (), fs')
     \<longleftrightarrow> (\<exists>tuples written.
            system_models_loop E sys system_re model_dir mpat (sort system_filenames) = Inr tuples \<and>
            tuples \<noteq> [] \<and> writable sys config \<and>
            write_tasks system_id system_dir model_dir 1 tuples doc_open = (Inr (), written) \<and>
            fs' = fs(config \<mapsto> written @ doc_close))"
  using assms
  by (auto simp: write_config_static_def split: sum.splits prod.splits if_splits)

lemma ex_static_document_eval:
  "doc_open @ concat (map (\<lambda>j. projr (get_eval_string (Suc j) ''None'' ''systems''
        (fst (ex_tuples ! j)) ''models'' (snd (ex_tuples ! j)))) [0..<4]) @ doc_close
     = ex_static_document"
  by code_simp

subsection \<open>The matcher of the concrete engine\<close>

lemmas mt_Star = mt.simps(9)

declare mt.simps(9) [simp del]

lemma mt_consumes:
  "st' \<in> set (mt r st) \<Longrightarrow>
     \<exists>u. fst (snd st) = u @ fst (snd st') \<and> fst st' = fst st + length u"
proof (induction r st arbitrary: st' rule: mt.induct)
  case (7 a b st)
  from "7.prems" obtain st1 where st1: "st1 \<in> set (mt a st)" "st' \<in> set (mt b st1)"
    by auto
  from "7.IH"(1) [OF st1(1)] "7.IH"(2) [OF st1(1) st1(2)] show ?case
    by auto
next
  case (9 a st)
  from "9.prems" have "st' \<in> set (concat (map (\<lambda>st'. if length (fst (snd st')) < length (fst (snd st)) then mt (Star a) st' else [])
               (mt a st)) @ [st])"
    by (subst (asm) mt_Star)
  then consider "st' = st"
    | st1 where "st1 \<in> set (mt a st)" "length (fst (snd st1)) < length (fst (snd st))"
        "st' \<in> set (mt (Star a) st1)"
    by (auto split: if_splits)
  then show ?case
  proof cases
    case 1
    then show ?thesis by simp
  next
    case 2
    from "9.IH"(1) [OF 2(1)] "9.IH"(2) [OF 2(1) 2(2) 2(3)] show ?thesis
      by auto
  qed
next
  case (10 k a st)
  then show ?case by fastforce
next
  case (1 st) then show ?case by simp
next
  case (2 c st) then show ?case by (auto simp: step_char_def split: list.splits if_splits prod.splits)
next
  case (3 st) then show ?case by (auto simp: step_char_def split: list.splits if_splits prod.splits)
next
  case (4 neg rs st) then show ?case by (auto simp: step_char_def split: list.splits if_splits prod.splits)
next
  case (5 st) then show ?case by (simp split: if_splits)
next
  case (6 st) then show ?case by (simp split: if_splits)
next
  case (8 a b st)
  from "8.prems" have "st' \<in> set (mt a st) \<or> st' \<in> set (mt b st)" by simp
  then show ?case using "8.IH" by blast
qed


lemma more_input_simps [simp]:
  "fst (more_input t st) = fst st"
  "fst (snd (more_input t st)) = fst (snd st) @ t"
  "snd (snd (more_input t st)) = snd (snd st)"
  by (simp_all add: more_input_def)

lemma step_char_more_input:
  "st' \<in> set (step_char P st) \<Longrightarrow> more_input t st' \<in> set (step_char P (more_input t st))"
  by (auto simp: step_char_def more_input_def split: list.splits if_splits prod.splits)

lemma mt_more_input:
  "eol_free r \<Longrightarrow> st' \<in> set (mt r st) \<Longrightarrow> more_input t st' \<in> set (mt r (more_input t st))"
proof (induction r st arbitrary: st' rule: mt.induct)
  case (1 st)
  then show ?case by simp
next
  case (2 c st)
  then show ?case by (simp add: step_char_more_input)
next
  case (3 st)
  then show ?case by (simp add: step_char_more_input)
next
  case (4 neg rs st)
  then show ?case by (simp add: step_char_more_input)
next
  case (5 st)
  then show ?case by (simp split: if_splits)
next
  case (6 st)
  then show ?case by simp
next
  case (7 a b st)
  from "7.prems" obtain st1 where st1: "st1 \<in> set (mt a st)" "st' \<in> set (mt b st1)"
    by auto
  from "7.prems"(1) have ef: "eol_free a" "eol_free b" by simp_all
  from "7.IH"(1) [OF ef(1) st1(1)] "7.IH"(2) [OF st1(1) ef(2) st1(2)]
  show ?case by auto
next
  case (8 a b st)
  from "8.prems"(1) have ef: "eol_free a" "eol_free b" by simp_all
  from "8.prems"(2) have "st' \<in> set (mt a st) \<or> st' \<in> set (mt b st)" by simp
  then have "more_input t st' \<in> set (mt a (more_input t st))
      \<or> more_input t st' \<in> set (mt b (more_input t st))"
    using "8.IH"(1) [OF ef(1)] "8.IH"(2) [OF ef(2)] by blast
  then show ?case by simp
next
  case (9 a st)
  from "9.prems"(1) have ef: "eol_free a" by simp
  from "9.prems"(2) have "st' \<in> set (concat (map (\<lambda>st'. if length (fst (snd st')) < length (fst (snd st)) then mt (Star a) st' else [])
               (mt a st)) @ [st])"
    by (subst (asm) mt_Star)
  then consider "st' = st"
    | st1 where "st1 \<in> set (mt a st)" "length (fst (snd st1)) < length (fst (snd st))"
        "st' \<in> set (mt (Star a) st1)"
    by (auto split: if_splits)
  then show ?case
  proof cases
    case 1
    then show ?thesis by (subst mt_Star) simp
  next
    case 2
    from "9.IH"(1) [OF ef 2(1)]
    have a: "more_input t st1 \<in> set (mt a (more_input t st))" .
    from "9.IH"(2) [OF 2(1) 2(2) "9.prems"(1) 2(3)]
    have b: "more_input t st' \<in> set (mt (Star a) (more_input t st1))" .
    from 2(2) have c: "length (fst (snd (more_input t st1))) < length (fst (snd (more_input t st)))"
      by simp
    show ?thesis
      by (subst mt_Star) (use a b c in \<open>auto intro!: bexI [of _ "more_input t st1"]\<close>)
  qed
next
  case (10 k a st)
  from "10.prems" obtain st1 where st1: "st1 \<in> set (mt a st)"
    "st' = (fst st1, fst (snd st1), (snd (snd st1))[k := Some (take (fst st1 - fst st) (fst (snd st)))])"
    by auto
  from mt_consumes [OF st1(1)] have le: "fst st1 - (fst st + length (fst (snd st))) = 0"
    by auto
  then have tk: "take (fst st1 - fst st) (fst (snd st) @ t) = take (fst st1 - fst st) (fst (snd st))"
    by simp
  from "10.prems"(1) have "eol_free a" by simp
  from "10.IH" [OF this st1(1)] have "more_input t st1 \<in> set (mt a (more_input t st))" .
  then show ?case
    by (auto simp: st1(2) le more_input_def intro!: image_eqI [of _ _ "more_input t st1", unfolded more_input_def])
qed

lemma py_match_trailing:
  assumes "eol_free r" and "py_match r n f \<noteq> None"
  shows "py_match r n (f @ t) \<noteq> None"
proof -
  from assms(2) obtain st' where "st' \<in> set (mt r (0, f, replicate n None))"
    by (auto simp: py_match_def split: list.splits)
  from mt_more_input [OF assms(1) this, of t]
  have "mt r (0, f @ t, replicate n None) \<noteq> []"
    by (auto simp: more_input_def)
  then show ?thesis
    by (auto simp: py_match_def split: list.splits)
qed

lemma py_re_trailing:
  assumes "eol_free_pattern p" and "py_re p = Some m" and "m f \<noteq> None"
  shows "m (f @ t) \<noteq> None"
proof -
  from assms(1) obtain r n where p: "parse p = POk (r, n)" and ef: "eol_free r"
    by (auto simp: eol_free_pattern_def split: pres.splits)
  from p assms(2) have m: "m = py_match r n"
    by (simp add: py_re_def)
  from assms(3) show ?thesis
    unfolding m by (rule py_match_trailing [OF ef])
qed

lemma mt_groups_length:
  "st' \<in> set (mt r st) \<Longrightarrow> length (snd (snd st')) = length (snd (snd st))"
proof (induction r st arbitrary: st' rule: mt.induct)
  case (1 st)
  then show ?case by simp
next
  case (2 c st)
  then show ?case by (auto simp: step_char_def split: list.splits if_splits prod.splits)
next
  case (3 st)
  then show ?case by (auto simp: step_char_def split: list.splits if_splits prod.splits)
next
  case (4 neg rs st)
  then show ?case by (auto simp: step_char_def split: list.splits if_splits prod.splits)
next
  case (5 st)
  then show ?case by (simp split: if_splits)
next
  case (6 st)
  then show ?case by (simp split: if_splits)
next
  case (7 a b st)
  from "7.prems" obtain st1 where st1: "st1 \<in> set (mt a st)" "st' \<in> set (mt b st1)"
    by auto
  from "7.IH"(1) [OF st1(1)] "7.IH"(2) [OF st1(1) st1(2)] show ?case
    by simp
next
  case (8 a b st)
  from "8.prems" have "st' \<in> set (mt a st) \<or> st' \<in> set (mt b st)" by simp
  then show ?case using "8.IH" by blast
next
  case (9 a st)
  from "9.prems" have "st' \<in> set (concat (map (\<lambda>st'. if length (fst (snd st')) < length (fst (snd st)) then mt (Star a) st' else [])
               (mt a st)) @ [st])"
    by (subst (asm) mt_Star)
  then consider "st' = st"
    | st1 where "st1 \<in> set (mt a st)" "length (fst (snd st1)) < length (fst (snd st))"
        "st' \<in> set (mt (Star a) st1)"
    by (auto split: if_splits)
  then show ?case
  proof cases
    case 1
    then show ?thesis by simp
  next
    case 2
    from "9.IH"(1) [OF 2(1)] "9.IH"(2) [OF 2(1) 2(2) 2(3)] show ?thesis
      by simp
  qed
next
  case (10 k a st)
  then show ?case by fastforce
qed


lemma mt_progress:
  "\<not> nullable r \<Longrightarrow> st' \<in> set (mt r st) \<Longrightarrow> fst st < fst st'"
proof (induction r st arbitrary: st' rule: mt.induct)
  case (2 c st)
  then show ?case by (auto simp: step_char_def split: list.splits if_splits prod.splits)
next
  case (3 st)
  then show ?case by (auto simp: step_char_def split: list.splits if_splits prod.splits)
next
  case (4 neg rs st)
  then show ?case by (auto simp: step_char_def split: list.splits if_splits prod.splits)
next
  case (7 a b st)
  from "7.prems"(2) obtain st1 where st1: "st1 \<in> set (mt a st)" "st' \<in> set (mt b st1)"
    by auto
  from mt_consumes [OF st1(1)] have le1: "fst st \<le> fst st1" by auto
  from mt_consumes [OF st1(2)] have le2: "fst st1 \<le> fst st'" by auto
  from "7.prems"(1) consider "\<not> nullable a" | "\<not> nullable b" by auto
  then show ?case
  proof cases
    case 1
    from "7.IH"(1) [OF 1 st1(1)] le2 show ?thesis by simp
  next
    case 2
    from "7.IH"(2) [OF st1(1) 2 st1(2)] le1 show ?thesis by simp
  qed
next
  case (8 a b st)
  from "8.prems"(1) have nn: "\<not> nullable a" "\<not> nullable b" by simp_all
  from "8.prems"(2) have "st' \<in> set (mt a st) \<or> st' \<in> set (mt b st)" by simp
  then show ?case using "8.IH"(1) [OF nn(1)] "8.IH"(2) [OF nn(2)] by blast
next
  case (10 k a st)
  then show ?case by fastforce
qed simp_all

lemma mt_SeqD:
  "st' \<in> set (mt (Seq a b) st) \<Longrightarrow> \<exists>st1. st1 \<in> set (mt a st) \<and> st' \<in> set (mt b st1)"
  by auto

lemma mt_Grp_captures:
  assumes "st' \<in> set (mt (Grp k a) st)" and "\<not> nullable a" and "k < length (snd (snd st))"
  shows "\<exists>t. snd (snd st') ! k = Some t \<and> t \<noteq> []"
proof -
  from assms(1) obtain st1 where st1: "st1 \<in> set (mt a st)"
    and st': "st' = (fst st1, fst (snd st1),
                     (snd (snd st1))[k := Some (take (fst st1 - fst st) (fst (snd st)))])"
    by auto
  from mt_progress [OF assms(2) st1] have lt: "fst st < fst st1" .
  from mt_consumes [OF st1] obtain u where u: "fst (snd st) = u @ fst (snd st1)"
    "fst st1 = fst st + length u"
    by blast
  with lt have "take (fst st1 - fst st) (fst (snd st)) \<noteq> []"
    by auto
  moreover from mt_groups_length [OF st1] assms(3) have "k < length (snd (snd st1))"
    by simp
  ultimately show ?thesis
    by (simp add: st')
qed

lemma mt_Lit_Eps:
  "st' \<in> set (mt (Seq (Lit c) Eps) st) \<Longrightarrow>
     snd (snd st') = snd (snd st) \<and> fst (snd st) = c # fst (snd st')"
  by (auto simp: step_char_def split: list.splits if_splits prod.splits)

lemma mt_Lit:
  "st' \<in> set (mt (Lit c) st) \<Longrightarrow>
     snd (snd st') = snd (snd st) \<and> fst (snd st) = c # fst (snd st')"
  by (auto simp: step_char_def split: list.splits if_splits prod.splits)

subsection \<open>The document generator\<close>











subsection \<open>\<^verbatim>\<open>output_to_dict\<close>\<close>


lemma matched_groups_Nil [simp]: "matched_groups pattern [] = []"
  by (simp add: matched_groups_def)





















subsection \<open>Splitting on whitespace\<close>

lemma split_ws_aux_word:
  "\<forall>c\<in>set w. \<not> is_space c \<Longrightarrow>
     split_ws_aux acc w = (if acc = [] \<and> w = [] then [] else [rev acc @ w])"
  by (induction w arbitrary: acc) auto

lemma split_ws_aux_at_space:
  "is_space c \<Longrightarrow> split_ws_aux acc (u @ c # v) = split_ws_aux acc u @ split_ws_aux [] v"
  by (induction u arbitrary: acc) auto

lemma split_ws_word: "w \<noteq> [] \<Longrightarrow> \<forall>c\<in>set w. \<not> is_space c \<Longrightarrow> split_ws w = [w]"
  by (simp add: split_ws_def split_ws_aux_word)

lemma split_ws_at_space: "is_space c \<Longrightarrow> split_ws (u @ c # v) = split_ws u @ split_ws v"
  by (simp add: split_ws_def split_ws_aux_at_space)

subsection \<open>\<^verbatim>\<open>__clean_rouge_args\<close> in the concrete engine\<close>

lemma parse_quot_mark_pattern: "parse quot_mark_pattern = POk (quot_rx, 1)"
  unfolding quot_rx_def by code_simp

lemma py_re_quot_mark_pattern: "py_re quot_mark_pattern = Some (py_match quot_rx 1)"
  by (simp add: py_re_def parse_quot_mark_pattern)

lemma quot_rx_group_nonempty:
  assumes "py_match quot_rx 1 s = Some g"
  shows "\<exists>t. g = [Some t] \<and> t \<noteq> []"
proof -
  from assms obtain st where st: "st \<in> set (mt quot_rx (0, s, [None]))" and g: "g = snd (snd st)"
    by (auto simp: py_match_def split: list.splits)
  from st [unfolded quot_rx_def] obtain st1 where
    st1: "st1 \<in> set (mt (Lit CHR 0x22) (0, s, [None]))" and
    rest: "st \<in> set (mt (Seq (Grp 0 (Seq (Seq Dot (Star Dot)) Eps)) (Seq (Lit CHR 0x22) Eps)) st1)"
    using mt_SeqD by blast
  from rest obtain st2 where
    st2: "st2 \<in> set (mt (Grp 0 (Seq (Seq Dot (Star Dot)) Eps)) st1)" and
    st3: "st \<in> set (mt (Seq (Lit CHR 0x22) Eps) st2)"
    using mt_SeqD by blast
  from mt_Lit [OF st1] have c1: "snd (snd st1) = [None]" by simp
  have nn: "\<not> nullable (Seq (Seq Dot (Star Dot)) Eps)" by simp
  from mt_Grp_captures [OF st2 nn] c1 obtain t where t: "snd (snd st2) ! 0 = Some t" "t \<noteq> []"
    by auto
  from mt_groups_length [OF st2] c1 have "length (snd (snd st2)) = 1" by simp
  with t(1) have "snd (snd st2) = [Some t]"
    by (cases "snd (snd st2)") auto
  with mt_Lit_Eps [OF st3] g t(2) show ?thesis by simp
qed


lemma quot_rx_no_quote:
  assumes "s = [] \<or> hd s \<noteq> CHR 0x22"
  shows "py_match quot_rx 1 s = None"
  using assms by (cases s) (auto simp: py_match_def quot_rx_def step_char_def)

lemma mt_Star_Dot:
  "CHR 0x0A \<notin> set s \<Longrightarrow>
     mt (Star Dot) (p, s, g) = map (\<lambda>k. (p + k, drop k s, g)) (rev [0..<Suc (length s)])"
proof (induction s arbitrary: p)
  case Nil
  show ?case by (subst mt_Star) (simp add: step_char_def)
next
  case (Cons c cs)
  from Cons.prems have c: "c \<noteq> CHR 0x0A" and cs: "CHR 0x0A \<notin> set cs" by auto
  have "mt (Star Dot) (p, c # cs, g) = mt (Star Dot) (Suc p, cs, g) @ [(p, c # cs, g)]"
    by (subst mt_Star) (simp add: step_char_def c)
  also have "\<dots> = map (\<lambda>k. (Suc p + k, drop k cs, g)) (rev [0..<Suc (length cs)]) @ [(p, c # cs, g)]"
    by (simp only: Cons.IH [OF cs])
  also have "\<dots> = map (\<lambda>k. (p + k, drop k (c # cs), g)) (rev [0..<Suc (length (c # cs))])"
  proof -
    have "[0..<Suc (length (c # cs))] = 0 # map Suc [0..<Suc (length cs)]"
      by (simp add: upt_conv_Cons map_Suc_upt del: upt_Suc)
    then show ?thesis
      by (simp add: rev_map comp_def del: upt_Suc)
  qed
  finally show ?case .
qed

lemma mt_Dot_plus:
  assumes "CHR 0x0A \<notin> set (c # cs)"
  shows "mt (Seq (Seq Dot (Star Dot)) Eps) (p, c # cs, g)
           = map (\<lambda>k. (Suc p + k, drop k cs, g)) (rev [0..<Suc (length cs)])"
proof -
  from assms have c: "c \<noteq> CHR 0x0A" and cs: "CHR 0x0A \<notin> set cs" by auto
  have "mt (Seq Dot (Star Dot)) (p, c # cs, g) = mt (Star Dot) (Suc p, cs, g)"
    by (simp add: step_char_def c)
  then show ?thesis
    by (simp add: mt_Star_Dot [OF cs] comp_def del: upt_Suc)
qed

lemma quot_rx_enclosed:
  assumes "body \<noteq> []" and "CHR 0x0A \<notin> set body"
  shows "py_match quot_rx 1 (CHR 0x22 # body @ [CHR 0x22]) = Some [Some body]"
proof -
  from assms(1) obtain c cs where body: "body = c # cs" by (cases body) auto
  let ?s1 = "c # cs @ [CHR 0x22]"
  let ?n = "length cs"
  from assms(2) body have nonl: "CHR 0x0A \<notin> set ?s1" by auto
  have G: "mt (Seq (Seq Dot (Star Dot)) Eps) (1, ?s1, [None])
             = map (\<lambda>k. (Suc 1 + k, drop k (cs @ [CHR 0x22]), [None])) (rev [0..<Suc (Suc ?n)])"
    using mt_Dot_plus [OF nonl, of 1 "[None]"] by simp
  have grp: "mt (Grp 0 (Seq (Seq Dot (Star Dot)) Eps)) (1, ?s1, [None])
             = map (\<lambda>k. (Suc 1 + k, drop k (cs @ [CHR 0x22]), [Some (take (Suc k) ?s1)]))
                 (rev [0..<Suc (Suc ?n)])"
    by (simp only: mt.simps(10) G) (simp add: comp_def del: upt_Suc)
  have revs: "rev [0..<Suc (Suc ?n)] = Suc ?n # ?n # rev [0..<?n]"
    by simp
  have tail: "mt (Seq (Grp 0 (Seq (Seq Dot (Star Dot)) Eps)) (Seq (Lit CHR 0x22) Eps)) (1, ?s1, [None])
      = (Suc (Suc (Suc ?n)), [], [Some (c # cs)])
        # concat (map (\<lambda>k. mt (Seq (Lit CHR 0x22) Eps)
                      (Suc 1 + k, drop k (cs @ [CHR 0x22]), [Some (take (Suc k) ?s1)]))
             (rev [0..<?n]))"
    by (simp only: mt.simps(7) grp revs) (simp add: step_char_def comp_def del: upt_Suc)
  have "mt quot_rx (0, CHR 0x22 # body @ [CHR 0x22], [None])
      = mt (Seq (Grp 0 (Seq (Seq Dot (Star Dot)) Eps)) (Seq (Lit CHR 0x22) Eps)) (1, ?s1, [None])"
  proof -
    have "mt (Lit CHR 0x22) (0, CHR 0x22 # c # cs @ [CHR 0x22], [None])
            = [(1, c # cs @ [CHR 0x22], [None])]"
      by (simp add: step_char_def)
    then show ?thesis
      unfolding quot_rx_def body by (subst mt.simps(7)) (simp del: mt.simps)
  qed
  with tail show ?thesis
    by (simp add: py_match_def body del: upt_Suc mt.simps)
qed


lemma get_options_constructor_args:
  assumes "args self = Some a" and "a \<noteq> []"
  shows "get_options self call_args = split_ws a @ [''-m'', config_file self]"
  using assms by (simp add: get_options_def add_config_option_def truthy_def)

text \<open>
  What \<^verbatim>\<open>__init__\<close> stores for a non-empty argument is never empty, so that
  \<^verbatim>\<open>__get_options\<close> takes its first branch whatever the call passes.
\<close>

lemma clean_rouge_args_stored:
  assumes "rouge_args \<noteq> []"
  shows "\<exists>a. clean_rouge_args py_re (Some rouge_args) = Inr (Some a) \<and> a \<noteq> []
          \<and> (\<forall>self call_args. args self = Some a \<longrightarrow>
                get_options self call_args = split_ws a @ [''-m'', config_file self])
          \<and> (\<forall>self PerlPath call_args. args self = Some a \<longrightarrow>
                command self PerlPath call_args
                  = PerlPath # bin_path self # split_ws a @ [''-m'', config_file self])
          \<and> (hd rouge_args \<noteq> CHR 0x22 \<longrightarrow> a = rouge_args)
          \<and> (\<forall>body. rouge_args = CHR 0x22 # body @ [CHR 0x22] \<and> body \<noteq> [] \<and> CHR 0x0A \<notin> set body
                \<longrightarrow> a = body)"
proof -
  have clean: "clean_rouge_args py_re (Some rouge_args)
      = (case py_match quot_rx 1 rouge_args of
           Some g \<Rightarrow> (case g of [] \<Rightarrow> Inl IndexError | cleaned_args # _ \<Rightarrow> Inr cleaned_args)
         | None \<Rightarrow> Inr (Some rouge_args))"
    using assms by (simp add: clean_rouge_args_def py_re_quot_mark_pattern)
  show ?thesis
  proof (cases "py_match quot_rx 1 rouge_args")
    case None
    have "\<forall>body. rouge_args = CHR 0x22 # body @ [CHR 0x22] \<and> body \<noteq> [] \<and> CHR 0x0A \<notin> set body
                \<longrightarrow> rouge_args = body"
      using None quot_rx_enclosed by fastforce
    with None clean assms show ?thesis
      by (auto simp: get_options_constructor_args command_def)
  next
    case (Some g)
    from quot_rx_group_nonempty [OF Some] obtain t where t: "g = [Some t]" "t \<noteq> []"
      by blast
    have nq: "hd rouge_args \<noteq> CHR 0x22 \<longrightarrow> t = rouge_args"
      using quot_rx_no_quote [of rouge_args] Some by auto
    have enc: "\<forall>body. rouge_args = CHR 0x22 # body @ [CHR 0x22] \<and> body \<noteq> [] \<and> CHR 0x0A \<notin> set body
                \<longrightarrow> t = body"
      using quot_rx_enclosed Some t(1) by fastforce
    from clean Some t nq enc show ?thesis
      by (auto simp: get_options_constructor_args command_def)
  qed
qed

subsection \<open>The variant pattern in the concrete engine\<close>



















section \<open>The claims\<close>

text \<open>
  C1. In multi-variant mode with a non-empty list of variant labels, given the candidate
  list of every variant (the files of the sorted listing that the variant's pattern
  matches, each with its label), \<^verbatim>\<open>ProduceSysModPair\<close> returns exactly when every
  variant's list reaches every index of the first variant's list and every identifier of
  the first variant's list resolves to references; it then returns one task per index
  \<open>i\<close> of the first variant's list, whose peers are the entries at position \<open>i\<close> of
  every variant's list, in the order of the labels, and whose references are the one
  resolution of the identifier of the first variant's entry at position \<open>i\<close>.
\<close>

theorem ProduceSysModPair_zip:
  assumes "system_idset \<noteq> []"
    and "listdir sys system_dir = Some system_filenames"
    and "list_all2 (\<lambda>eachdir cands. id_file_set E spat system_filenames eachdir = Inr cands)
           system_idset all"
  shows "(ProduceSysModPair E sys system_dir model_dir system_idset mpat spat = Inr tasks \<longleftrightarrow>
          length tasks = length (hd all) \<and>
          (\<forall>i<length (hd all).
             (\<forall>cands\<in>set all. i < length cands) \<and>
             fst (tasks ! i) = map (\<lambda>cands. cands ! i) all \<and>
             get_model_filenames_for_id E sys (fst (hd all ! i)) model_dir mpat
               = Inr (snd (tasks ! i))))
       \<and> (\<forall>v<length system_idset. \<exists>system_re.
             E (spat @ ''.'' @ system_idset ! v @ ''$'') = Some system_re \<and>
             map snd (all ! v) =
               map (\<lambda>f. (system_idset ! v, f))
                 (filter (\<lambda>f. system_re f \<noteq> None) (sort system_filenames)))"
proof
  from assms(3) have emap: "emap (id_file_set E spat system_filenames) system_idset = Inr all"
    by (simp add: emap_eq_Inr)
  from assms(1,3) obtain first others where all: "all = first # others"
    by (cases all) auto
  show "ProduceSysModPair E sys system_dir model_dir system_idset mpat spat = Inr tasks \<longleftrightarrow>
          length tasks = length (hd all) \<and>
          (\<forall>i<length (hd all).
             (\<forall>cands\<in>set all. i < length cands) \<and>
             fst (tasks ! i) = map (\<lambda>cands. cands ! i) all \<and>
             get_model_filenames_for_id E sys (fst (hd all ! i)) model_dir mpat
               = Inr (snd (tasks ! i)))"
    using pair_loop_eq_Inr [of E sys model_dir mpat all 0 first tasks]
    by (simp add: ProduceSysModPair_def assms(2) emap all)
  show "\<forall>v<length system_idset. \<exists>system_re.
             E (spat @ ''.'' @ system_idset ! v @ ''$'') = Some system_re \<and>
             map snd (all ! v) =
               map (\<lambda>f. (system_idset ! v, f))
                 (filter (\<lambda>f. system_re f \<noteq> None) (sort system_filenames))"
  proof (intro allI impI)
    fix v assume "v < length system_idset"
    with assms(3) have "id_file_set E spat system_filenames (system_idset ! v) = Inr (all ! v)"
      by (rule list_all2_nthD)
    then show "\<exists>system_re.
             E (spat @ ''.'' @ system_idset ! v @ ''$'') = Some system_re \<and>
             map snd (all ! v) =
               map (\<lambda>f. (system_idset ! v, f))
                 (filter (\<lambda>f. system_re f \<noteq> None) (sort system_filenames))"
      by (auto simp: id_file_set_eq_Inr dest: id_file_loop_entries)
  qed
qed

theorem ProduceSysModPair_zip_witness:
  "[''01'', ''02''] \<noteq> [] \<and>
   listdir ex_os ''systems'' = Some [''doc2.02'', ''doc1.01'', ''xdoc3.01'', ''doc1.02'', ''doc2.01'', ''notes.txt''] \<and>
   list_all2 (\<lambda>eachdir cands. id_file_set py_re ''(doc[0-9]+)''
       [''doc2.02'', ''doc1.01'', ''xdoc3.01'', ''doc1.02'', ''doc2.01'', ''notes.txt''] eachdir = Inr cands)
     [''01'', ''02''] ex_all \<and>
   ProduceSysModPair py_re ex_os ''systems'' ''models'' [''01'', ''02''] ''ref-#ID#-[A-Za-z]''
     ''(doc[0-9]+)'' = Inr ex_tasks \<and>
   length ex_tasks = length (hd ex_all) \<and>
   fst (ex_tasks ! 1) = map (\<lambda>cands. cands ! 1) ex_all \<and>
   get_model_filenames_for_id py_re ex_os (fst (hd ex_all ! 1)) ''models'' ''ref-#ID#-[A-Za-z]''
     = Inr (snd (ex_tasks ! 1))"
proof -
  have ne: "[''01'', ''02''] \<noteq> ([] :: string list)" by simp
  have len: "(1::nat) < length (hd ex_all)" by (simp add: ex_all_def)
  from ProduceSysModPair_zip [OF ne ex_listdir_systems ex_candidates,
      of "''models''" "''ref-#ID#-[A-Za-z]''" ex_tasks] ex_ProduceSysModPair len
  show ?thesis
    using ex_listdir_systems ex_candidates by blast
qed



text \<open>
  C3. On a candidate directory in which no file matches the candidate pattern,
  \<^verbatim>\<open>write_config_staticA\<close> raises nothing: it writes a document with no task and
  returns. \<^verbatim>\<open>write_config_static\<close>, on the same input, raises the exception
  "Did not find any files matching the pattern ..." and writes nothing.
\<close>

theorem no_candidates_staticA_writes_empty_document:
  \<open>write_config_staticA py_re ex_os3 ''systems'' ''(doc[0-9]+)'' ''models'' ''ref-#ID#-[A-Z]''
       ''rouge_conf.xml'' [''01''] Map.empty
     = (Inr (), [''rouge_conf.xml'' \<mapsto> ''<ROUGE-EVAL version="1.55"></ROUGE-EVAL>''])
   \<and> write_config_static py_re ex_os3 ''systems'' ''(doc[0-9]+)'' ''models'' ''ref-#ID#-[A-Z]''
       ''rouge_conf.xml'' ''None'' Map.empty
     = (Inl (Exception (''Did not find any files matching the pattern (doc[0-9]+) in the ''
                        @ ''system summaries directory systems.'')), Map.empty)\<close>
proof
  have ls: "listdir ex_os3 ''systems'' = Some [''readme.txt'']"
    by (simp add: ex_os3_def)
  have cands: "emap (id_file_set py_re ''(doc[0-9]+)'' [''readme.txt'']) [''01''] = Inr ([] # [])"
    by code_simp
  have w: "writable ex_os3 ''rouge_conf.xml''"
    by (simp add: ex_os3_def)
  show \<open>write_config_staticA py_re ex_os3 ''systems'' ''(doc[0-9]+)'' ''models'' ''ref-#ID#-[A-Z]''
       ''rouge_conf.xml'' [''01''] Map.empty
     = (Inr (), [''rouge_conf.xml'' \<mapsto> ''<ROUGE-EVAL version="1.55"></ROUGE-EVAL>''])\<close>
    using staticA_no_candidates [OF ls cands w]
    by (simp add: doc_open_def doc_close_def)
  have re: "py_re ''(doc[0-9]+)'' = Some (the (py_re ''(doc[0-9]+)''))"
    by (rule py_re_the) code_simp
  have none: "filter (\<lambda>f. the (py_re ''(doc[0-9]+)'') f \<noteq> None) [''readme.txt''] = []"
    by code_simp
  show \<open>write_config_static py_re ex_os3 ''systems'' ''(doc[0-9]+)'' ''models'' ''ref-#ID#-[A-Z]''
       ''rouge_conf.xml'' ''None'' Map.empty
     = (Inl (Exception (''Did not find any files matching the pattern (doc[0-9]+) in the ''
                        @ ''system summaries directory systems.'')), Map.empty)\<close>
    using static_no_candidates [where E = py_re and spat = "''(doc[0-9]+)''", OF ls re none]
    by (simp add: no_candidates_msg_def)
qed

text \<open>
  C4. \<^verbatim>\<open>__get_model_filenames_for_id\<close> returns the matching reference filenames in
  the order of the directory listing, and \<^verbatim>\<open>ProduceSysModPair\<close> keeps that order:
  on the listing \<^verbatim>\<open>ref-doc1-a, ref-doc1-B, ref-doc2-A\<close> the references of
  \<^verbatim>\<open>doc1\<close> are \<^verbatim>\<open>ref-doc1-a, ref-doc1-B\<close>, which is not sorted.
\<close>

theorem references_in_listing_order:
  "get_model_filenames_for_id py_re ex_os (IdStr ''doc1'') ''models'' ''ref-#ID#-[A-Za-z]''
     = Inr [''ref-doc1-a'', ''ref-doc1-B'']
   \<and> sort [''ref-doc1-a'', ''ref-doc1-B''] = [''ref-doc1-B'', ''ref-doc1-a'']
   \<and> \<not> sorted [''ref-doc1-a'', ''ref-doc1-B'']
   \<and> map snd ex_tasks = [[''ref-doc1-a'', ''ref-doc1-B''], [''ref-doc2-A'']]
   \<and> ProduceSysModPair py_re ex_os ''systems'' ''models'' [''01'', ''02''] ''ref-#ID#-[A-Za-z]''
        ''(doc[0-9]+)'' = Inr ex_tasks"
proof (intro conjI)
  show "get_model_filenames_for_id py_re ex_os (IdStr ''doc1'') ''models'' ''ref-#ID#-[A-Za-z]''
     = Inr [''ref-doc1-a'', ''ref-doc1-B'']"
    by code_simp
  show "sort [''ref-doc1-a'', ''ref-doc1-B''] = [''ref-doc1-B'', ''ref-doc1-a'']"
    by code_simp
  show "\<not> sorted [''ref-doc1-a'', ''ref-doc1-B'']"
    by code_simp
  show "map snd ex_tasks = [[''ref-doc1-a'', ''ref-doc1-B''], [''ref-doc2-A'']]"
    by (simp add: ex_tasks_def)
  show "ProduceSysModPair py_re ex_os ''systems'' ''models'' [''01'', ''02''] ''ref-#ID#-[A-Za-z]''
        ''(doc[0-9]+)'' = Inr ex_tasks"
    by (rule ex_ProduceSysModPair)
qed

text \<open>
  C5. \<^verbatim>\<open>write_config_static\<close> lists the candidate directory, compiles the candidate
  pattern and goes through the sorted listing. It returns normally exactly when there
  are entries (filename, references), one for each file of the listing that the
  pattern's \<^verbatim>\<open>match\<close> accepts and none for the others, in the sorted order of the
  filenames, such that each entry's identifier is the first group of the match and its
  references are the sorted references resolved for that identifier, there is at least
  one entry, the document can be opened, and the document written is the header, the
  task of each entry in that order, numbered from 1, and the footer. So a file the
  pattern does not match is skipped, with no exception and no trace in the document.
  The match is Python's \<^verbatim>\<open>match\<close>, from the start of the filename: in the
  concrete engine, a pattern without \<^verbatim>\<open>$\<close> that accepts a filename also accepts
  it with any characters appended.
\<close>

theorem candidates_sorted_prefix_match:
  assumes "listdir sys system_dir = Some system_filenames"
    and "E spat = Some system_re"
  shows "(write_config_static E sys system_dir spat model_dir mpat config system_id fs = (Inr (), fs')
          \<longleftrightarrow> (\<exists>tuples evals.
                 map fst tuples = filter (\<lambda>f. system_re f \<noteq> None) (sort system_filenames)
               \<and> sorted (map fst tuples)
               \<and> set (map fst tuples) = {f \<in> set system_filenames. system_re f \<noteq> None}
               \<and> (\<forall>t\<in>set tuples. \<exists>s rest refs.
                     system_re (fst t) = Some (Some s # rest) \<and>
                     get_model_filenames_for_id E sys (IdStr s) model_dir mpat = Inr refs \<and>
                     snd t = sort refs)
               \<and> tuples \<noteq> [] \<and> writable sys config
               \<and> length evals = length tuples
               \<and> (\<forall>j<length tuples.
                     get_eval_string (Suc j) system_id system_dir (fst (tuples ! j)) model_dir
                       (snd (tuples ! j)) = Inr (evals ! j))
               \<and> fs' = fs(config \<mapsto> doc_open @ concat evals @ doc_close)))
         \<and> (\<forall>p m f t. eol_free_pattern p \<and> py_re p = Some m \<and> m f \<noteq> None \<longrightarrow> m (f @ t) \<noteq> None)"
proof (intro conjI allI impI)
  fix p m f t
  assume "eol_free_pattern p \<and> py_re p = Some m \<and> m f \<noteq> None"
  then show "m (f @ t) \<noteq> None"
    using py_re_trailing by blast
next
  let ?cands = "filter (\<lambda>f. system_re f \<noteq> None) (sort system_filenames)"
  have srt: "sorted ?cands"
    by (rule sorted_filter_sort)
  have st: "set ?cands = {f \<in> set system_filenames. system_re f \<noteq> None}"
    by simp
  have "write_config_static E sys system_dir spat model_dir mpat config system_id fs = (Inr (), fs')
     \<longleftrightarrow> (\<exists>tuples written.
            system_models_loop E sys system_re model_dir mpat (sort system_filenames) = Inr tuples \<and>
            tuples \<noteq> [] \<and> writable sys config \<and>
            write_tasks system_id system_dir model_dir 1 tuples doc_open = (Inr (), written) \<and>
            fs' = fs(config \<mapsto> written @ doc_close))"
    by (rule write_config_static_eq_Inr [where E = E and spat = spat, OF assms])
  also have "\<dots> \<longleftrightarrow> (\<exists>tuples evals.
                 map fst tuples = ?cands
               \<and> sorted (map fst tuples)
               \<and> set (map fst tuples) = {f \<in> set system_filenames. system_re f \<noteq> None}
               \<and> (\<forall>t\<in>set tuples. \<exists>s rest refs.
                     system_re (fst t) = Some (Some s # rest) \<and>
                     get_model_filenames_for_id E sys (IdStr s) model_dir mpat = Inr refs \<and>
                     snd t = sort refs)
               \<and> tuples \<noteq> [] \<and> writable sys config
               \<and> length evals = length tuples
               \<and> (\<forall>j<length tuples.
                     get_eval_string (Suc j) system_id system_dir (fst (tuples ! j)) model_dir
                       (snd (tuples ! j)) = Inr (evals ! j))
               \<and> fs' = fs(config \<mapsto> doc_open @ concat evals @ doc_close))"
    (is "?A \<longleftrightarrow> ?B")
  proof
    assume ?A
    then obtain tuples written where a:
      "system_models_loop E sys system_re model_dir mpat (sort system_filenames) = Inr tuples"
      "tuples \<noteq> []" "writable sys config"
      "write_tasks system_id system_dir model_dir 1 tuples doc_open = (Inr (), written)"
      "fs' = fs(config \<mapsto> written @ doc_close)"
      by blast
    from a(1) have t1: "map fst tuples = ?cands"
      and t2: "\<forall>t\<in>set tuples. \<exists>s rest refs.
                     system_re (fst t) = Some (Some s # rest) \<and>
                     get_model_filenames_for_id E sys (IdStr s) model_dir mpat = Inr refs \<and>
                     snd t = sort refs"
      unfolding system_models_loop_tuples by blast+
    from a(4) obtain evals where e: "length evals = length tuples"
      "\<forall>j<length tuples. get_eval_string (1 + j) system_id system_dir (fst (tuples ! j))
                               model_dir (snd (tuples ! j)) = Inr (evals ! j)"
      "written = doc_open @ concat evals"
      unfolding write_tasks_eq_Inr by blast
    from e(2) have e2: "\<forall>j<length tuples.
                     get_eval_string (Suc j) system_id system_dir (fst (tuples ! j)) model_dir
                       (snd (tuples ! j)) = Inr (evals ! j)"
      by simp
    from a(5) e(3) have f: "fs' = fs(config \<mapsto> doc_open @ concat evals @ doc_close)"
      by simp
    from t1 srt have s1: "sorted (map fst tuples)" by simp
    from t1 st have s2: "set (map fst tuples) = {f \<in> set system_filenames. system_re f \<noteq> None}"
      by simp
    from t1 s1 s2 t2 a(2,3) e(1) e2 f show ?B
      by blast
  next
    assume ?B
    then obtain tuples evals where b: "map fst tuples = ?cands"
      "\<forall>t\<in>set tuples. \<exists>s rest refs.
                     system_re (fst t) = Some (Some s # rest) \<and>
                     get_model_filenames_for_id E sys (IdStr s) model_dir mpat = Inr refs \<and>
                     snd t = sort refs"
      "tuples \<noteq> []" "writable sys config" "length evals = length tuples"
      "\<forall>j<length tuples.
                     get_eval_string (Suc j) system_id system_dir (fst (tuples ! j)) model_dir
                       (snd (tuples ! j)) = Inr (evals ! j)"
      "fs' = fs(config \<mapsto> doc_open @ concat evals @ doc_close)"
      by blast
    from b(1,2) have l: "system_models_loop E sys system_re model_dir mpat (sort system_filenames)
        = Inr tuples"
      unfolding system_models_loop_tuples by blast
    from b(5,6) have w: "write_tasks system_id system_dir model_dir 1 tuples doc_open
        = (Inr (), doc_open @ concat evals)"
      unfolding write_tasks_eq_Inr by auto
    from l b(3,4) w b(7) show ?A
      by auto
  qed
  finally show "write_config_static E sys system_dir spat model_dir mpat config system_id fs = (Inr (), fs')
     \<longleftrightarrow> (\<exists>tuples evals.
                 map fst tuples = filter (\<lambda>f. system_re f \<noteq> None) (sort system_filenames)
               \<and> sorted (map fst tuples)
               \<and> set (map fst tuples) = {f \<in> set system_filenames. system_re f \<noteq> None}
               \<and> (\<forall>t\<in>set tuples. \<exists>s rest refs.
                     system_re (fst t) = Some (Some s # rest) \<and>
                     get_model_filenames_for_id E sys (IdStr s) model_dir mpat = Inr refs \<and>
                     snd t = sort refs)
               \<and> tuples \<noteq> [] \<and> writable sys config
               \<and> length evals = length tuples
               \<and> (\<forall>j<length tuples.
                     get_eval_string (Suc j) system_id system_dir (fst (tuples ! j)) model_dir
                       (snd (tuples ! j)) = Inr (evals ! j))
               \<and> fs' = fs(config \<mapsto> doc_open @ concat evals @ doc_close))" .
qed

theorem candidates_sorted_prefix_match_witness:
  "listdir ex_os ''systems''
     = Some [''doc2.02'', ''doc1.01'', ''xdoc3.01'', ''doc1.02'', ''doc2.01'', ''notes.txt'']
   \<and> py_re ''(doc[0-9]+)'' = Some (the (py_re ''(doc[0-9]+)''))
   \<and> write_config_static py_re ex_os ''systems'' ''(doc[0-9]+)'' ''models'' ''ref-#ID#-[A-Za-z]''
        ''rouge_conf.xml'' ''None'' Map.empty
      = (Inr (), [''rouge_conf.xml'' \<mapsto> ex_static_document])
   \<and> the (py_re ''(doc[0-9]+)'') ''doc1.01'' = Some [Some ''doc1'']
   \<and> the (py_re ''(doc[0-9]+)'') ''xdoc3.01'' = None
   \<and> the (py_re ''(doc[0-9]+)'') ''notes.txt'' = None
   \<and> eol_free_pattern ''(doc[0-9]+)''
   \<and> the (py_re ''(doc[0-9]+)'') ''doc1'' \<noteq> None
   \<and> the (py_re ''(doc[0-9]+)'') (''doc1'' @ ''.01'') \<noteq> None"
proof -
  let ?p = "''(doc[0-9]+)''"
  let ?l = "[''doc2.02'', ''doc1.01'', ''xdoc3.01'', ''doc1.02'', ''doc2.01'', ''notes.txt'']"
  let ?g = "\<lambda>j. get_eval_string (Suc j) ''None'' ''systems'' (fst (ex_tuples ! j)) ''models''
                 (snd (ex_tuples ! j))"
  have ls: "listdir ex_os ''systems'' = Some ?l"
    by (simp add: ex_os_def)
  have re: "py_re ?p = Some (the (py_re ?p))"
    by (rule py_re_the) code_simp
  have e1: "the (py_re ?p) ''doc1.01'' = Some [Some ''doc1'']" by code_simp
  have e1b: "the (py_re ?p) ''doc1.02'' = Some [Some ''doc1'']" by code_simp
  have e1c: "the (py_re ?p) ''doc2.01'' = Some [Some ''doc2'']" by code_simp
  have e1d: "the (py_re ?p) ''doc2.02'' = Some [Some ''doc2'']" by code_simp
  have e2: "the (py_re ?p) ''xdoc3.01'' = None" by code_simp
  have e2b: "the (py_re ?p) ''notes.txt'' = None" by code_simp
  have e3: "eol_free_pattern ?p" by code_simp
  have e5: "the (py_re ?p) ''doc1'' \<noteq> None" by code_simp
  have r1: "get_model_filenames_for_id py_re ex_os (IdStr ''doc1'') ''models'' ''ref-#ID#-[A-Za-z]''
      = Inr [''ref-doc1-a'', ''ref-doc1-B'']"
    by code_simp
  have r2: "get_model_filenames_for_id py_re ex_os (IdStr ''doc2'') ''models'' ''ref-#ID#-[A-Za-z]''
      = Inr [''ref-doc2-A'']"
    by code_simp
  have s1: "sort [''ref-doc1-a'', ''ref-doc1-B''] = [''ref-doc1-B'', ''ref-doc1-a'']" by code_simp
  have s2: "sort [''ref-doc2-A''] = [''ref-doc2-A'']" by simp
  have c1: "map fst ex_tuples = filter (\<lambda>f. the (py_re ?p) f \<noteq> None) (sort ?l)"
    by code_simp
  have c1s: "sorted (map fst ex_tuples)"
    unfolding c1 by (rule sorted_filter_sort)
  have gen: "\<And>P (l :: string list). set (filter P (sort l)) = {f \<in> set l. P f}"
    by simp
  have c1t: "set (map fst ex_tuples) = {f \<in> set ?l. the (py_re ?p) f \<noteq> None}"
    unfolding c1 by (rule gen)
  have c2: "\<forall>t\<in>set ex_tuples. \<exists>s rest refs.
              the (py_re ?p) (fst t) = Some (Some s # rest) \<and>
              get_model_filenames_for_id py_re ex_os (IdStr s) ''models'' ''ref-#ID#-[A-Za-z]''
                = Inr refs \<and>
              snd t = sort refs"
    using e1 e1b e1c e1d r1 r2 s1 s2 by (simp add: ex_tuples_def)
  have c3: "ex_tuples \<noteq> []" by (simp add: ex_tuples_def)
  have c4: "writable ex_os ''rouge_conf.xml''" by (simp add: ex_os_def)
  define evals where "evals = map (\<lambda>j. projr (?g j)) [0..<4]"
  have c5: "length evals = length ex_tuples"
    by (simp add: evals_def ex_tuples_def)
  have ok: "\<not> isl (?g 0)" "\<not> isl (?g 1)" "\<not> isl (?g 2)" "\<not> isl (?g 3)"
    by code_simp+
  have c6: "\<forall>j<length ex_tuples. ?g j = Inr (evals ! j)"
  proof (intro allI impI)
    fix j assume "j < length ex_tuples"
    then have j: "j < 4" by (simp add: ex_tuples_def)
    then have "j = 0 \<or> j = 1 \<or> j = 2 \<or> j = 3" by arith
    with ok have "\<not> isl (?g j)" by blast
    moreover from j have "evals ! j = projr (?g j)"
      unfolding evals_def by (simp del: upt_Suc)
    ultimately show "?g j = Inr (evals ! j)" by simp
  qed
  have c7: "[''rouge_conf.xml'' \<mapsto> ex_static_document]
      = Map.empty(''rouge_conf.xml'' \<mapsto> doc_open @ concat evals @ doc_close)"
    unfolding evals_def ex_static_document_eval ..
  note inst = candidates_sorted_prefix_match [where E = py_re and spat = ?p, OF ls re,
      where model_dir = "''models''"
      and mpat = "''ref-#ID#-[A-Za-z]''" and config = "''rouge_conf.xml''"
      and system_id = "''None''" and fs = Map.empty
      and fs' = "[''rouge_conf.xml'' \<mapsto> ex_static_document]"]
  from inst c1 c1s c1t c2 c3 c4 c5 c6 c7
  have run: "write_config_static py_re ex_os ''systems'' ?p ''models'' ''ref-#ID#-[A-Za-z]''
        ''rouge_conf.xml'' ''None'' Map.empty
      = (Inr (), [''rouge_conf.xml'' \<mapsto> ex_static_document])"
    by blast
  from inst e3 re e5 have tr: "the (py_re ?p) (''doc1'' @ ''.01'') \<noteq> None"
    by blast
  show ?thesis
    using ls re run e1 e2 e2b e3 e5 tr by blast
qed



text \<open>
  C7. The argument vector is the interpreter, the executable path, then the
  constructor-time arguments split on whitespace when there are any, else the per-call
  arguments split on whitespace when there are any, else the default set
  (\<^verbatim>\<open>-e data_dir -c 95 -U -r 1000 -n 4 -a\<close>: data directory, confidence level,
  bootstrap resampling count, n-gram order, the \<^verbatim>\<open>-a\<close> flag); in every case the
  vector ends with \<^verbatim>\<open>-m\<close> followed by the configuration document path. The split
  is the one of \<^verbatim>\<open>str.split()\<close>: the empty string has no word, a non-empty string
  without whitespace is one word, and the words of a string with a whitespace character
  (space, tab, newline, vertical tab, form feed, carriage return) are the words before
  it followed by the words after it; these three equations determine the split of
  every string.
\<close>

theorem command_shape:
  "command self PerlPath rouge_args =
     PerlPath # bin_path self #
       (if truthy (args self) then split_ws (the (args self))
        else if truthy rouge_args then split_ws (the rouge_args)
        else [''-e'', data_dir self, ''-c'', ''95'', ''-U'', ''-r'', ''1000'', ''-n'', ''4'', ''-a''])
       @ [''-m'', config_file self]
   \<and> drop (length (command self PerlPath rouge_args) - 2) (command self PerlPath rouge_args)
       = [''-m'', config_file self]
   \<and> last (command self PerlPath rouge_args) = config_file self
   \<and> split_ws [] = []
   \<and> (\<forall>w. w \<noteq> [] \<and> (\<forall>c\<in>set w. \<not> is_space c) \<longrightarrow> split_ws w = [w])
   \<and> (\<forall>u c v. is_space c \<longrightarrow> split_ws (u @ c # v) = split_ws u @ split_ws v)
   \<and> (\<forall>c. is_space c \<longleftrightarrow>
          c = CHR '' '' \<or> c = CHR 0x09 \<or> c = CHR 0x0A \<or> c = CHR 0x0B \<or> c = CHR 0x0C \<or> c = CHR 0x0D)"
proof (intro conjI allI impI)
  show "command self PerlPath rouge_args =
     PerlPath # bin_path self #
       (if truthy (args self) then split_ws (the (args self))
        else if truthy rouge_args then split_ws (the rouge_args)
        else [''-e'', data_dir self, ''-c'', ''95'', ''-U'', ''-r'', ''1000'', ''-n'', ''4'', ''-a''])
       @ [''-m'', config_file self]"
    by (simp add: command_def get_options_def add_config_option_def default_options_def truthy_def
        split: option.splits)
  show "drop (length (command self PerlPath rouge_args) - 2) (command self PerlPath rouge_args)
       = [''-m'', config_file self]"
    by (simp add: command_def get_options_def add_config_option_def default_options_def truthy_def
        split: option.splits)
  show "last (command self PerlPath rouge_args) = config_file self"
    by (simp add: command_def get_options_def add_config_option_def default_options_def truthy_def
        split: option.splits)
  show "split_ws [] = []"
    by (simp add: split_ws_def)
next
  fix w assume "w \<noteq> [] \<and> (\<forall>c\<in>set w. \<not> is_space c)"
  then show "split_ws w = [w]" by (simp add: split_ws_word)
next
  fix u c v assume "is_space c"
  then show "split_ws (u @ c # v) = split_ws u @ split_ws v" by (rule split_ws_at_space)
next
  fix c show "is_space c \<longleftrightarrow>
          c = CHR '' '' \<or> c = CHR 0x09 \<or> c = CHR 0x0A \<or> c = CHR 0x0B \<or> c = CHR 0x0C \<or> c = CHR 0x0D"
    by (auto simp: is_space_def)
qed

theorem command_shape_witness:
  "command ex_rouge ''perl'' (Some ''-c 99'')
     = [''perl'', ''ROUGE-1.5.5.pl'', ''-n'', ''2'', ''-a'', ''-m'', ''rouge_conf.xml'']
   \<and> command (ex_rouge\<lparr>args := None\<rparr>) ''perl'' (Some (''-c'' @ [CHR 0x09, CHR '' ''] @ ''99 ''))
     = [''perl'', ''ROUGE-1.5.5.pl'', ''-c'', ''99'', ''-m'', ''rouge_conf.xml'']
   \<and> command (ex_rouge\<lparr>args := None\<rparr>) ''perl'' None
     = [''perl'', ''ROUGE-1.5.5.pl'', ''-e'', ''data'', ''-c'', ''95'', ''-U'', ''-r'', ''1000'',
        ''-n'', ''4'', ''-a'', ''-m'', ''rouge_conf.xml'']
   \<and> ''-n'' \<noteq> [] \<and> list_all (\<lambda>c. \<not> is_space c) ''-n'' \<and> split_ws ''-n'' = [''-n'']
   \<and> is_space CHR '' ''
   \<and> split_ws (''-n'' @ CHR '' '' # ''2 -a'') = split_ws ''-n'' @ split_ws ''2 -a''
   \<and> split_ws ''-n 2 -a'' = [''-n'', ''2'', ''-a'']"
proof -
  have sp1: "split_ws ''-n 2 -a'' = [''-n'', ''2'', ''-a'']" by code_simp
  have sp2: "split_ws (''-c'' @ [CHR 0x09, CHR '' ''] @ ''99 '') = [''-c'', ''99'']" by code_simp
  have w1: "list_all (\<lambda>c. \<not> is_space c) ''-n''" by code_simp
  have w2: "is_space CHR '' ''" by code_simp
  have t1: "truthy (args ex_rouge)" "the (args ex_rouge) = ''-n 2 -a''"
    "bin_path ex_rouge = ''ROUGE-1.5.5.pl''" "config_file ex_rouge = ''rouge_conf.xml''"
    "data_dir ex_rouge = ''data''"
    by (simp_all add: ex_rouge_def truthy_def)
  have t2: "\<not> truthy (args (ex_rouge\<lparr>args := None\<rparr>))"
    "truthy (Some (''-c'' @ [CHR 0x09, CHR '' ''] @ ''99 ''))" "\<not> truthy None"
    by (simp_all add: truthy_def)
  note a = command_shape [of ex_rouge "''perl''" "Some ''-c 99''"]
  note b = command_shape [of "ex_rouge\<lparr>args := None\<rparr>" "''perl''"
      "Some (''-c'' @ [CHR 0x09, CHR '' ''] @ ''99 '')"]
  note c = command_shape [of "ex_rouge\<lparr>args := None\<rparr>" "''perl''" None]
  from a have c1: "command ex_rouge ''perl'' (Some ''-c 99'')
     = [''perl'', ''ROUGE-1.5.5.pl'', ''-n'', ''2'', ''-a'', ''-m'', ''rouge_conf.xml'']"
    by (simp only: t1 if_True sp1) simp
  from b have c2: "command (ex_rouge\<lparr>args := None\<rparr>) ''perl'' (Some (''-c'' @ [CHR 0x09, CHR '' ''] @ ''99 ''))
     = [''perl'', ''ROUGE-1.5.5.pl'', ''-c'', ''99'', ''-m'', ''rouge_conf.xml'']"
    using t2 t1 sp2 by simp
  from c have c3: "command (ex_rouge\<lparr>args := None\<rparr>) ''perl'' None
     = [''perl'', ''ROUGE-1.5.5.pl'', ''-e'', ''data'', ''-c'', ''95'', ''-U'', ''-r'', ''1000'',
        ''-n'', ''4'', ''-a'', ''-m'', ''rouge_conf.xml'']"
    using t2 t1 by simp
  from a w1 have s1: "split_ws ''-n'' = [''-n'']"
    by (simp add: list_all_iff)
  from a w2 have s2: "split_ws (''-n'' @ CHR '' '' # ''2 -a'') = split_ws ''-n'' @ split_ws ''2 -a''"
    by blast
  show ?thesis
    using c1 c2 c3 w1 w2 s1 s2 sp1 by simp
qed








text \<open>
  C10. \<^verbatim>\<open>__clean_rouge_args\<close> ("Remove enclosing quotation marks, if any.") matches
  \<^verbatim>\<open>"(.+)"\<close> from the start of the argument, with nothing that ties the closing
  quote to the end. Constructed with \<^verbatim>\<open>"-n 2" -a\<close>, which has no enclosing pair
  of quotes, the object stores \<^verbatim>\<open>-n 2\<close>: the text after the second quote is
  dropped, and every option list and command computed afterwards is
  \<^verbatim>\<open>-n 2 -m config\<close>, whatever the call passes, and not the constructor-time
  argument split on whitespace. And an argument enclosed in quotes keeps them when a
  newline stands between them. Enclosed in quotes on one line, \<^verbatim>\<open>"-n 2 -a"\<close> is
  stored without them.
\<close>

theorem clean_rouge_args_drops_tail:
  \<open>clean_rouge_args py_re (Some ''"-n 2" -a'') = Inr (Some ''-n 2'')
   \<and> get_options (self\<lparr>args := Some ''-n 2''\<rparr>) call_args = [''-n'', ''2'', ''-m'', config_file self]
   \<and> command (self\<lparr>args := Some ''-n 2''\<rparr>) PerlPath call_args
       = [PerlPath, bin_path self, ''-n'', ''2'', ''-m'', config_file self]
   \<and> split_ws ''"-n 2" -a'' = [''"-n'', ''2"'', ''-a'']
   \<and> clean_rouge_args py_re (Some (''"-n'' @ [CHR 0x0A] @ ''2"''))
       = Inr (Some (''"-n'' @ [CHR 0x0A] @ ''2"''))
   \<and> clean_rouge_args py_re (Some ''"-n 2 -a"'') = Inr (Some ''-n 2 -a'')\<close>
proof (intro conjI)
  show \<open>clean_rouge_args py_re (Some ''"-n 2" -a'') = Inr (Some ''-n 2'')\<close>
    by code_simp
  have sp: "split_ws ''-n 2'' = [''-n'', ''2'']"
    by code_simp
  show opts: "get_options (self\<lparr>args := Some ''-n 2''\<rparr>) call_args
      = [''-n'', ''2'', ''-m'', config_file self]"
    by (simp add: get_options_def add_config_option_def truthy_def sp)
  show "command (self\<lparr>args := Some ''-n 2''\<rparr>) PerlPath call_args
       = [PerlPath, bin_path self, ''-n'', ''2'', ''-m'', config_file self]"
    by (simp add: command_def opts)
  show \<open>split_ws ''"-n 2" -a'' = [''"-n'', ''2"'', ''-a'']\<close>
    by code_simp
  show \<open>clean_rouge_args py_re (Some (''"-n'' @ [CHR 0x0A] @ ''2"''))
       = Inr (Some (''"-n'' @ [CHR 0x0A] @ ''2"''))\<close>
    by code_simp
  show \<open>clean_rouge_args py_re (Some ''"-n 2 -a"'') = Inr (Some ''-n 2 -a'')\<close>
    by code_simp
qed

end
